theory Spec2Isabelle
  imports
    Main
    "HOL-Library.Word"
    "HOL-Library.Char_ord"
    "HOL-Library.List_Lexorder"
    "HOL-Library.Sublist"
    "HOL-Library.AList"
    "HOL-Library.Multiset"
begin

section \<open>Common data\<close>

text \<open>
  Go strings are byte sequences: they are modelled as \<open>string\<close> (a list of 8-bit
  characters, ordered bytewise and lexicographically, as Go compares strings). File
  contents (\<open>[]byte\<close>) are lists of 8-bit words; a nil slice and an empty slice are
  both the empty list.
\<close>

type_synonym byte = "8 word"

datatype error =
    OpenError      \<comment> \<open>\<open>os.Open\<close> failed\<close>
  | StatError      \<comment> \<open>\<open>f.Stat\<close> failed\<close>
  | ReadError      \<comment> \<open>a read of the file failed\<close>
  | LstatError     \<comment> \<open>\<open>os.Lstat\<close> failed during a walk\<close>
  | ReadDirError   \<comment> \<open>the names of a directory could not be read\<close>
  | SkipDir        \<comment> \<open>\<open>filepath.SkipDir\<close>, the walk's control value\<close>
  | SkipAll        \<comment> \<open>\<open>filepath.SkipAll\<close>\<close>
  | IndexPanic     \<comment> \<open>run-time panic: index or slice bounds out of range\<close>
  | NilPanic       \<comment> \<open>run-time panic: method call on a nil value\<close>
  | Fatal          \<comment> \<open>\<open>log.Fatal\<close>: the process exits\<close>

section \<open>platform: string-slice helpers\<close>

text \<open>\<open>Contains\<close> checks if a string is in a given slice.\<close>

fun Contains :: "string list \<Rightarrow> string \<Rightarrow> bool" where
  "Contains [] str = False"
| "Contains (v # s) str = (if v = str then True else Contains s str)"

text \<open>
  \<open>Append\<close> appends a string to a slice if it is not already there. The variadic
  argument is a list; \<open>elems[0]\<close> on an empty list panics.
\<close>

fun Append :: "string list \<Rightarrow> string list \<Rightarrow> error + string list" where
  "Append sl [] = Inl IndexPanic"
| "Append sl (e # elems) =
     (if \<not> Contains sl e then Inr (sl @ [e]) else Inr sl)"

text \<open>\<open>QuoteIfSpace\<close> wraps in double quotes if the string contains a space.\<close>

definition QuoteIfSpace :: "string \<Rightarrow> string" where
  "QuoteIfSpace s = (if CHR '' '' \<in> set s then [CHR 0x22] @ s @ [CHR 0x22] else s)"

section \<open>core: bounded file read\<close>

text \<open>
  A file as \<open>readFile\<close> sees it: whether it can be opened and stat'ed, its bytes, and
  an optional offset at which reading fails with an I/O error (the bytes before that
  offset are delivered).
\<close>

record osfile =
  fopen_ok :: bool
  fstat_ok :: bool
  fdata :: "byte list"
  fread_fail :: "nat option"

text \<open>
  Reading through \<open>io.LimitReader(f, n)\<close> until end of input: at most \<open>n\<close> bytes
  are requested from the file. A failing offset below the limit (and inside the file)
  stops the copy with the bytes delivered so far and the error.
\<close>

definition copyLimited :: "osfile \<Rightarrow> nat \<Rightarrow> byte list \<times> error option" where
  "copyLimited f n =
     (case fread_fail f of
        Some k \<Rightarrow>
          if k < n \<and> k \<le> length (fdata f) then (take k (fdata f), Some ReadError)
          else (take n (fdata f), None)
      | None \<Rightarrow> (take n (fdata f), None))"

text \<open>\<open>os.ReadFile\<close>: the whole file, or the bytes read before a failure.\<close>

definition osReadFile :: "osfile \<Rightarrow> byte list \<times> error option" where
  "osReadFile f =
     (if \<not> fopen_ok f then ([], Some OpenError)
      else (case fread_fail f of
              Some k \<Rightarrow>
                if k \<le> length (fdata f) then (take k (fdata f), Some ReadError)
                else (fdata f, None)
            | None \<Rightarrow> (fdata f, None)))"

text \<open>
  \<open>readFile\<close> reads the file at the given path and returns its content; the result
  is Go's pair \<open>([]byte, error)\<close>. The limit is a byte count (\<open>int64\<close>).
\<close>

definition readFile :: "osfile \<Rightarrow> int \<Rightarrow> byte list \<times> error option" where
  "readFile f limit =
     (if limit \<le> 0 then osReadFile f
      else if \<not> fopen_ok f then ([], Some OpenError)
      else if \<not> fstat_ok f then ([], Some StatError)
      else copyLimited f (nat limit))"

text \<open>The constant \<open>limitKb\<close> of \<open>recognizeDirLanguages\<close>, passed to \<open>readFile\<close> as its limit.\<close>

definition limitKb :: int where
  "limitKb = 64"

section \<open>platform: device id and salt\<close>

text \<open>
  Library functions the code calls and the repository does not define, taken as
  parameters: \<open>md5.Sum\<close> (a 16-byte array, here a 128-bit word read big-endian),
  \<open>strings.TrimSpace\<close>, \<open>filepath.Join\<close> of two elements, \<open>filepath.Rel\<close>
  (which can fail), \<open>filepath.Base\<close>, and the classification functions of the
  \<open>enry\<close> package.
\<close>

datatype langtype = Unknown | Data | Programming | Markup | Prose

record lib =
  md5Sum :: "string \<Rightarrow> 128 word"
  TrimSpace :: "string \<Rightarrow> string"
  Join :: "string \<Rightarrow> string \<Rightarrow> string"
  Rel :: "string \<Rightarrow> string \<Rightarrow> string option"
  Base :: "string \<Rightarrow> string"
  IsVendor :: "string \<Rightarrow> bool"
  IsDotFile :: "string \<Rightarrow> bool"
  IsDocumentation :: "string \<Rightarrow> bool"
  IsConfiguration :: "string \<Rightarrow> bool"
  IsGenerated :: "string \<Rightarrow> byte list \<Rightarrow> bool"
  GetLanguage :: "string \<Rightarrow> byte list \<Rightarrow> string"
  GetLanguageType :: "string \<Rightarrow> langtype"

text \<open>
  What the process reads from its surroundings: environment variables, the output of
  \<open>git remote get-url origin\<close> (\<open>None\<close> when the command fails), the cloud token's
  permission, the product's constants and the custom plugins directory.
\<close>

datatype dirstate = DirMissing | DirUnreadable | DirFiles "string list"

record world =
  env_SALT :: string
  env_DEVICEID :: string
  env_QODANA_REMOTE_URL :: string
  git_remote_url :: "string option"
  env_QODANA_DOCKER :: string
  env_QODANA_TREAT_AS_RELEASE :: string
  allowedToSendFUS :: bool
  parentPrefix :: string
  versionBranch :: string
  containerJvmDebugPort :: string
  CustomPluginsPath :: string
  customPluginsDir :: dirstate

text \<open>\<open>fmt.Sprintf("%x", sum)\<close> of a 16-byte array: 32 lower-case hexadecimal digits.\<close>

definition hexDigit :: "nat \<Rightarrow> char" where
  "hexDigit n = ''0123456789abcdef'' ! (n mod 16)"

definition hex128 :: "128 word \<Rightarrow> string" where
  "hex128 w = map (\<lambda>i. hexDigit (unat (drop_bit (4 * i) w) mod 16)) (rev [0..<32])"

text \<open>The slice expression \<open>s[lo:hi]\<close> of a string; out of range it panics.\<close>

definition substr :: "string \<Rightarrow> nat \<Rightarrow> nat \<Rightarrow> error + string" where
  "substr s lo hi =
     (if lo \<le> hi \<and> hi \<le> length s then Inr (take (hi - lo) (drop lo s)) else Inl IndexPanic)"

text \<open>\<open>getRemoteUrl\<close> returns the remote url of the current git repository.\<close>

definition getRemoteUrl :: "lib \<Rightarrow> world \<Rightarrow> string" where
  "getRemoteUrl L w =
     (if env_QODANA_REMOTE_URL w = '''' then
        (case git_remote_url w of
           None \<Rightarrow> ''''
         | Some out \<Rightarrow> TrimSpace L out)
      else TrimSpace L (env_QODANA_REMOTE_URL w))"

text \<open>\<open>GetDeviceIdSalt\<close> sets a consistent device id based on the repository upstream.\<close>

definition GetDeviceIdSalt :: "lib \<Rightarrow> world \<Rightarrow> error + string list" where
  "GetDeviceIdSalt L w =
     (let salt = env_SALT w; deviceId = env_DEVICEID w in
      if salt = '''' \<or> deviceId = '''' then
        (let remoteUrl = getRemoteUrl L w;
             hash = (if remoteUrl \<noteq> '''' then hex128 (md5Sum L (''1n1T-$@Lt-'' @ remoteUrl))
                     else ''00000000000000000000000000000000'');
             salt' = (if salt = '''' then hex128 (md5Sum L (''$eC0nd-$@Lt-'' @ hash)) else salt)
         in if deviceId = '''' then
              (case substr hash 0 4 of Inl x \<Rightarrow> Inl x | Inr a \<Rightarrow>
               (case substr hash 4 8 of Inl x \<Rightarrow> Inl x | Inr b \<Rightarrow>
               (case substr hash 8 12 of Inl x \<Rightarrow> Inl x | Inr c \<Rightarrow>
               (case substr hash 12 24 of Inl x \<Rightarrow> Inl x | Inr d \<Rightarrow>
                 Inr [''200820300000000-'' @ a @ ''-'' @ b @ ''-'' @ c @ ''-'' @ d, salt']))))
            else Inr [deviceId, salt'])
      else Inr [deviceId, salt])"

text \<open>\<open>IsContainer\<close> checks if Qodana is running in a container.\<close>

definition IsContainer :: "world \<Rightarrow> bool" where
  "IsContainer w = (env_QODANA_DOCKER w \<noteq> '''')"

section \<open>core: properties\<close>

text \<open>
  A Go \<open>map[string]string\<close> is an association list with distinct keys; an assignment
  \<open>m[k] = v\<close> is \<open>AList.update k v m\<close>. The order of the list stands for one
  iteration order of the map, which Go leaves unspecified.
\<close>

type_synonym props = "(string \<times> string) list"

record DotNet =
  Project :: string
  Solution :: string
  Configuration :: string
  Platform :: string
  Frameworks :: string

record opts =
  LogDirPath :: string
  ConfDirPath :: string
  CacheDir :: string
  AnalysisId :: string
  CoverageDirPath :: string
  JvmDebugPort :: int
  cliProps :: props       \<comment> \<open>first result of \<open>opts.Properties()\<close>, in iteration order\<close>
  flags :: "string list"  \<comment> \<open>second result of \<open>opts.Properties()\<close>\<close>

definition FormatBool :: "bool \<Rightarrow> string" where
  "FormatBool b = (if b then ''true'' else ''false'')"

text \<open>\<open>strings.Join\<close>.\<close>

fun joinStrings :: "string list \<Rightarrow> string \<Rightarrow> string" where
  "joinStrings [] sep = ''''"
| "joinStrings [x] sep = x"
| "joinStrings (x # y # ys) sep = x @ sep @ joinStrings (y # ys) sep"

definition netFrameworkDenylist :: string where
  "netFrameworkDenylist =
     ''!net48;!net472;!net471;!net47;!net462;!net461;!net46;!net452;!net451;!net45;!net403;!net40;!net35;!net20;!net11''"

text \<open>
  The statements of a function body that update one variable, run in order: each
  statement maps the value of the variable to its new value.
\<close>

definition run :: "'s \<Rightarrow> ('s \<Rightarrow> 's) list \<Rightarrow> 's" where
  "run s stmts = foldl (\<lambda>s stmt. stmt s) s stmts"

text \<open>
  \<open>getPropertiesMap\<close>: the map literal, then the conditional assignments in the order
  of the source; \<open>deviceIdSalt[0]\<close> and \<open>deviceIdSalt[1]\<close> panic on a shorter slice.
\<close>

definition getPropertiesMap ::
  "world \<Rightarrow> string \<Rightarrow> string \<Rightarrow> string \<Rightarrow> string \<Rightarrow> string \<Rightarrow> DotNet \<Rightarrow> string list \<Rightarrow>
   string list \<Rightarrow> string \<Rightarrow> string \<Rightarrow> error + props" where
  "getPropertiesMap w prefix' systemDir logDir confDir pluginsDir dotNet deviceIdSalt
       plugins analysisId coverageDir =
     (case deviceIdSalt of
        d0 # d1 # _ \<Rightarrow>
          Inr (run
            [(''-Didea.headless.enable.statistics'', FormatBool (allowedToSendFUS w)),
             (''-Didea.headless.statistics.device.id'', d0),
             (''-Didea.headless.statistics.salt'', d1),
             (''-Didea.config.path'', QuoteIfSpace confDir),
             (''-Didea.system.path'', QuoteIfSpace systemDir),
             (''-Didea.plugins.path'', QuoteIfSpace pluginsDir),
             (''-Didea.log.path'', QuoteIfSpace logDir),
             (''-Dqodana.automation.guid'', QuoteIfSpace analysisId),
             (''-XX:MaxRAMPercentage'', ''70'')]
            [if coverageDir \<noteq> '''' then
               AList.update ''-Dqodana.coverage.input'' (QuoteIfSpace coverageDir)
             else id,
             if length plugins > 0 then
               AList.update ''-Didea.required.plugins.id'' (joinStrings plugins '','')
             else id,
             if prefix' = ''Rider'' then
               (\<lambda>properties. run properties
                  [if Project dotNet \<noteq> '''' then
                     AList.update ''-Dqodana.net.project'' (QuoteIfSpace (Project dotNet))
                   else if Solution dotNet \<noteq> '''' then
                     AList.update ''-Dqodana.net.solution'' (QuoteIfSpace (Solution dotNet))
                   else id,
                   if Configuration dotNet \<noteq> '''' then
                     AList.update ''-Dqodana.net.configuration'' (QuoteIfSpace (Configuration dotNet))
                   else id,
                   if Platform dotNet \<noteq> '''' then
                     AList.update ''-Dqodana.net.platform'' (QuoteIfSpace (Platform dotNet))
                   else id,
                   if Frameworks dotNet \<noteq> '''' then
                     AList.update ''-Dqodana.net.targetFrameworks'' (QuoteIfSpace (Frameworks dotNet))
                   else if IsContainer w then
                     \<comment> \<open>We don't want to scan .NET Framework projects in Linux containers\<close>
                     AList.update ''-Dqodana.net.targetFrameworks'' netFrameworkDenylist
                   else id])
             else id])
      | _ \<Rightarrow> Inl IndexPanic)"

text \<open>\<open>getCustomPluginPaths\<close>: the comma-joined paths of the custom plugins directory.\<close>

definition getCustomPluginPaths :: "lib \<Rightarrow> world \<Rightarrow> error + string" where
  "getCustomPluginPaths L w =
     (case customPluginsDir w of
        DirMissing \<Rightarrow> Inr ''''
      | DirUnreadable \<Rightarrow> Inl Fatal
      | DirFiles names \<Rightarrow> Inr (joinStrings (map (Join L (CustomPluginsPath w)) names) '',''))"

text \<open>
  The lines \<open>GetProperties\<close> starts from (the garbage-collector log, the debug agent, the
  release licence, the custom plugin path), given the value of \<open>getCustomPluginPaths\<close>.
\<close>

definition baseLines :: "lib \<Rightarrow> world \<Rightarrow> opts \<Rightarrow> string \<Rightarrow> string list" where
  "baseLines L w opts customPluginPathsValue =
     (let lines = [''-Xlog:gc*:'' @ QuoteIfSpace (Join L (LogDirPath opts) ''gc.log'')];
          lines =
            (if JvmDebugPort opts > 0 then
               lines @ [''-agentlib:jdwp=transport=dt_socket,server=y,suspend=y,address=*:''
                          @ containerJvmDebugPort w]
             else lines);
          lines =
            (if env_QODANA_TREAT_AS_RELEASE w = ''true'' then
               lines @ [''-Deap.require.license=release'']
             else lines)
      in if customPluginPathsValue \<noteq> '''' then
           lines @ [''-Dplugin.path='' @ customPluginPathsValue]
         else lines)"

text \<open>The loop over the raw flags: a flag is appended unless it is empty or already a line.\<close>

fun addFlags :: "string list \<Rightarrow> string list \<Rightarrow> string list" where
  "addFlags lines [] = lines"
| "addFlags lines (f # fs) =
     (if f \<noteq> '''' \<and> \<not> Contains lines f then addFlags (lines @ [f]) fs
      else addFlags lines fs)"

text \<open>\<open>strings.HasPrefix(k, "-")\<close> and the rewrite of a key that lacks it.\<close>

definition optionKey :: "string \<Rightarrow> string" where
  "optionKey k = (if \<not> (k \<noteq> [] \<and> hd k = CHR ''-'') then ''-D'' @ k else k)"

text \<open>
  The loop over one layer of overrides (written twice in \<open>GetProperties\<close>: for
  \<open>qodana.yaml\<close>, then for the command line), in the iteration order of the layer.
\<close>

fun overrideProps :: "props \<Rightarrow> props \<Rightarrow> props" where
  "overrideProps props [] = props"
| "overrideProps props ((k, v) # layer) = overrideProps (AList.update (optionKey k) v props) layer"

text \<open>The loop that turns the final map into \<open>key=value\<close> lines, in iteration order.\<close>

definition propLines :: "props \<Rightarrow> string list" where
  "propLines props = map (\<lambda>(k, v). k @ ''='' @ v) props"

text \<open>
  The call of \<open>getPropertiesMap\<close> in \<open>GetProperties\<close> (the default layer), the map
  \<open>props\<close> after both override loops, and \<open>GetProperties\<close> itself: the lines and
  the flattened map, sorted by \<open>sort.Strings\<close>.
\<close>

definition defaultProps :: "lib \<Rightarrow> world \<Rightarrow> opts \<Rightarrow> DotNet \<Rightarrow> string list \<Rightarrow> error + props" where
  "defaultProps L w opts dotNetOptions plugins =
     (case GetDeviceIdSalt L w of
        Inl e \<Rightarrow> Inl e
      | Inr deviceIdSalt \<Rightarrow>
          getPropertiesMap w (parentPrefix w)
            (Join L (Join L (CacheDir opts) ''idea'') (versionBranch w))
            (LogDirPath opts) (ConfDirPath opts)
            (Join L (Join L (CacheDir opts) ''plugins'') (versionBranch w))
            dotNetOptions deviceIdSalt plugins (AnalysisId opts) (CoverageDirPath opts))"

definition mergedProps ::
  "lib \<Rightarrow> world \<Rightarrow> opts \<Rightarrow> props \<Rightarrow> DotNet \<Rightarrow> string list \<Rightarrow> error + props" where
  "mergedProps L w opts yamlProps dotNetOptions plugins =
     (case defaultProps L w opts dotNetOptions plugins of
        Inl e \<Rightarrow> Inl e
      | Inr props \<Rightarrow> Inr (overrideProps (overrideProps props yamlProps) (cliProps opts)))"

definition GetProperties ::
  "lib \<Rightarrow> world \<Rightarrow> opts \<Rightarrow> props \<Rightarrow> DotNet \<Rightarrow> string list \<Rightarrow> error + string list" where
  "GetProperties L w opts yamlProps dotNetOptions plugins =
     (case getCustomPluginPaths L w of
        Inl e \<Rightarrow> Inl e
      | Inr customPluginPathsValue \<Rightarrow>
          (let lines = addFlags (baseLines L w opts customPluginPathsValue) (flags opts) in
           case mergedProps L w opts yamlProps dotNetOptions plugins of
             Inl e \<Rightarrow> Inl e
           | Inr props \<Rightarrow> Inr (sort (lines @ propLines props))))"


text \<open>
  One layer of overrides read as a map on option keys, the way its loop applies it: each
  key rewritten by \<open>optionKey\<close>, a later entry of the iteration replacing an earlier
  one for the same option key.
\<close>

definition layerMap :: "props \<Rightarrow> string \<rightharpoonup> string" where
  "layerMap layer = map_of (rev (map (\<lambda>(k, v). (optionKey k, v)) layer))"

section \<open>core: language detection\<close>

text \<open>\<open>ignoredDirectories\<close> is a list of directories that should be ignored by the configurator.\<close>

definition ignoredDirectories :: "string list" where
  "ignoredDirectories = [''.idea'', ''.vscode'', ''.git'']"

text \<open>\<open>strings.Split(s, sep)\<close> for a one-byte separator; the path separator is \<open>/\<close>.\<close>

fun splitOn :: "char \<Rightarrow> string \<Rightarrow> string list" where
  "splitOn c [] = [[]]"
| "splitOn c (x # xs) =
     (if x = c then [] # splitOn c xs
      else (case splitOn c xs of
              [] \<Rightarrow> [[x]]
            | p # ps \<Rightarrow> (x # p) # ps))"

definition PathSeparator :: char where
  "PathSeparator = CHR ''/''"

text \<open>\<open>isInIgnoredDirectory\<close> returns true if the given path should be ignored by the configurator.\<close>

definition isInIgnoredDirectory :: "string \<Rightarrow> bool" where
  "isInIgnoredDirectory path =
     list_ex (\<lambda>part. list_ex (\<lambda>ignored. part = ignored) ignoredDirectories)
       (splitOn PathSeparator path)"

text \<open>
  The type bits of a \<open>FileMode\<close>, and the \<open>os.FileInfo\<close> the walk hands to its
  callback together with the file stored at the path (what \<open>readFile(path, _)\<close> opens).
\<close>

datatype fmode = ModeRegular | ModeDir | ModeOther

definition IsDir :: "fmode \<Rightarrow> bool" where
  "IsDir m = (m = ModeDir)"

definition IsRegular :: "fmode \<Rightarrow> bool" where
  "IsRegular m = (m = ModeRegular)"

record finfo =
  Mode :: fmode
  stored :: osfile

text \<open>
  A project tree as \<open>filepath.Walk\<close> meets it: a non-directory entry (name, whether
  it is a regular file, the file behind it), a directory with its entries in the order
  \<open>readDirNames\<close> lists them, a directory whose names cannot be read, and a name whose
  \<open>lstat\<close> fails.
\<close>

datatype entry =
    File string bool osfile
  | Dir string "entry list"
  | BadDir string
  | Broken string

fun ename :: "entry \<Rightarrow> string" where
  "ename (File n r f) = n"
| "ename (Dir n es) = n"
| "ename (BadDir n) = n"
| "ename (Broken n) = n"

fun isBroken :: "entry \<Rightarrow> bool" where
  "isBroken (Broken n) = True"
| "isBroken e = False"

fun isDirEntry :: "entry \<Rightarrow> bool" where
  "isDirEntry (Dir n es) = True"
| "isDirEntry (BadDir n) = True"
| "isDirEntry e = False"

text \<open>Opening a directory succeeds; reading bytes from it fails.\<close>

definition dirFile :: osfile where
  "dirFile = \<lparr>fopen_ok = True, fstat_ok = True, fdata = [], fread_fail = Some 0\<rparr>"

definition dirInfo :: finfo where
  "dirInfo = \<lparr>Mode = ModeDir, stored = dirFile\<rparr>"

definition fileInfo :: "bool \<Rightarrow> osfile \<Rightarrow> finfo" where
  "fileInfo regular f = \<lparr>Mode = (if regular then ModeRegular else ModeOther), stored = f\<rparr>"

text \<open>
  \<open>filepath.Walk\<close> of the Go library (\<open>walk\<close> and its loop over the names of a
  directory), with the state the callback updates threaded through. The callback returns
  Go's \<open>error\<close>: \<open>None\<close> is nil.
\<close>

type_synonym 's walkfn = "string \<Rightarrow> finfo option \<Rightarrow> error option \<Rightarrow> 's \<Rightarrow> 's \<times> error option"

fun walk :: "lib \<Rightarrow> 's walkfn \<Rightarrow> string \<Rightarrow> entry \<Rightarrow> 's \<Rightarrow> 's \<times> error option"
  and walkNames :: "lib \<Rightarrow> 's walkfn \<Rightarrow> string \<Rightarrow> entry list \<Rightarrow> 's \<Rightarrow> 's \<times> error option"
where
  "walk L fn path (File n regular f) s = fn path (Some (fileInfo regular f)) None s"
| "walk L fn path (BadDir n) s = fn path (Some dirInfo) (Some ReadDirError) s"
| "walk L fn path (Broken n) s = fn path None (Some LstatError) s"
| "walk L fn path (Dir n es) s =
     (case fn path (Some dirInfo) None s of
        (s', Some err1) \<Rightarrow> (s', Some err1)
      | (s', None) \<Rightarrow> walkNames L fn path es s')"
| "walkNames L fn path [] s = (s, None)"
| "walkNames L fn path (e # es) s =
     (if isBroken e then
        (case fn (Join L path (ename e)) None (Some LstatError) s of
           (s', r) \<Rightarrow>
             if r \<noteq> None \<and> r \<noteq> Some SkipDir then (s', r)
             else walkNames L fn path es s')
      else
        (case walk L fn (Join L path (ename e)) e s of
           (s', r) \<Rightarrow>
             if r \<noteq> None \<and> (\<not> isDirEntry e \<or> r \<noteq> Some SkipDir) then (s', r)
             else walkNames L fn path es s'))"

definition Walk :: "lib \<Rightarrow> 's walkfn \<Rightarrow> string \<Rightarrow> entry \<Rightarrow> 's \<Rightarrow> 's \<times> error option" where
  "Walk L fn root tree s =
     (case walk L fn root tree s of
        (s', r) \<Rightarrow> if r = Some SkipDir \<or> r = Some SkipAll then (s', None) else (s', r))"

text \<open>
  The counter map \<open>out\<close>, the read \<open>out[language]\<close> (zero for a missing key) and
  the statement \<open>out[language] += 1\<close>.
\<close>

type_synonym counts = "(string \<times> int) list"

definition lookupCount :: "counts \<Rightarrow> string \<Rightarrow> int" where
  "lookupCount out language = (case map_of out language of None \<Rightarrow> 0 | Some c \<Rightarrow> c)"

definition increment :: "counts \<Rightarrow> string \<Rightarrow> counts" where
  "increment out language = AList.update language (lookupCount out language + 1) out"

definition OtherLanguage :: string where
  "OtherLanguage = ''''"

text \<open>The callback that \<open>recognizeDirLanguages\<close> passes to \<open>filepath.Walk\<close>.\<close>

definition visit :: "lib \<Rightarrow> string \<Rightarrow> counts walkfn" where
  "visit L projectPath path fo err out =
     (if err \<noteq> None then (out, Some SkipDir)
      else (case fo of
        None \<Rightarrow> (out, Some NilPanic)
      | Some f \<Rightarrow>
          if IsDir (Mode f) \<and> \<not> IsRegular (Mode f) then (out, None)
          else (case Rel L projectPath path of
            None \<Rightarrow> (out, None)
          | Some rel \<Rightarrow>
              if rel = ''.'' then (out, None)
              else
                (let relpath = (if IsDir (Mode f) then rel @ [PathSeparator] else rel) in
                 if isInIgnoredDirectory path \<or> IsVendor L relpath \<or> IsDotFile L relpath \<or>
                    IsDocumentation L relpath \<or> IsConfiguration L relpath \<or>
                    IsGenerated L relpath []
                 then (if IsDir (Mode f) then (out, Some SkipDir) else (out, None))
                 else if IsDir (Mode f) then (out, None)
                 else (case readFile (stored f) limitKb of
                   (content, Some e) \<Rightarrow> (out, None)
                 | (content, None) \<Rightarrow>
                     if IsGenerated L relpath content then (out, None)
                     else
                       (let language = GetLanguage L (Base L path) content in
                        if language = OtherLanguage then (out, None)
                        else if GetLanguageType L language \<noteq> Programming then (out, None)
                        else (increment out language, None)))))))"

text \<open>
  \<open>sort.Slice\<close> as the insertion sort that the Go library runs on slices of at most
  12 elements: each element moves left while it is less than its left neighbour. The
  sorted part is kept reversed. On longer slices the library runs another algorithm,
  which sorts by the same relation and may leave equal elements in another order; what is
  proved of the ranking below (a rearrangement, in decreasing order of count) holds of
  every sort by that relation.
\<close>

fun insertLeft :: "('a \<Rightarrow> 'a \<Rightarrow> bool) \<Rightarrow> 'a \<Rightarrow> 'a list \<Rightarrow> 'a list" where
  "insertLeft lt x [] = [x]"
| "insertLeft lt x (y # ys) = (if lt x y then y # insertLeft lt x ys else x # y # ys)"

definition sortSlice :: "('a \<Rightarrow> 'a \<Rightarrow> bool) \<Rightarrow> 'a list \<Rightarrow> 'a list" where
  "sortSlice lt xs = rev (foldl (\<lambda>acc x. insertLeft lt x acc) [] xs)"

text \<open>
  The ranking after the walk: the entries of \<open>out\<close> in the order the iteration over
  the map yields them, sorted by decreasing count, and their languages.
\<close>

definition rankLanguages :: "counts \<Rightarrow> string list" where
  "rankLanguages langCounts = map fst (sortSlice (\<lambda>a b. snd a > snd b) langCounts)"

text \<open>
  \<open>recognizeDirLanguages\<close> returns the languages detected in the given directory. The
  parameter \<open>iter\<close> is the order in which this run's \<open>range out\<close> yields the entries
  of the map (a rearrangement of them, chosen by the Go runtime).
\<close>

definition scanCounts :: "lib \<Rightarrow> string \<Rightarrow> entry \<Rightarrow> counts \<times> error option" where
  "scanCounts L projectPath tree = Walk L (visit L projectPath) projectPath tree []"

definition recognizeDirLanguages ::
  "lib \<Rightarrow> (counts \<Rightarrow> counts) \<Rightarrow> string \<Rightarrow> entry \<Rightarrow> error + string list" where
  "recognizeDirLanguages L iter projectPath tree =
     (case scanCounts L projectPath tree of
        (out, Some err) \<Rightarrow> Inl err
      | (out, None) \<Rightarrow> Inr (rankLanguages (iter out)))"

text \<open>
  An entry with a read error: its \<open>lstat\<close> fails, it is a directory whose names
  cannot be read, or it is a file whose content cannot be read.
\<close>

fun unreadable :: "entry \<Rightarrow> bool" where
  "unreadable (Broken n) = True"
| "unreadable (BadDir n) = True"
| "unreadable (File n regular f) = (snd (readFile f limitKb) \<noteq> None)"
| "unreadable (Dir n es) = False"

section \<open>Sample inputs\<close>

text \<open>
  A small stand-in for the library, used where a statement is evaluated on concrete
  data: paths are joined with \<open>/\<close>, \<open>Rel\<close> strips the base and the separator,
  \<open>Base\<close> is the last segment, a name ending in \<open>.go\<close> is Go, in \<open>.py\<close> Python, in
  \<open>.md\<close> Markdown, \<open>vendor/\<close> marks vendored paths, and a file whose content starts
  with the byte 1 is generated. The digest is constant.
\<close>

definition endsWith :: "string \<Rightarrow> string \<Rightarrow> bool" where
  "endsWith s e = (length e \<le> length s \<and> drop (length s - length e) s = e)"

definition startsWith :: "string \<Rightarrow> string \<Rightarrow> bool" where
  "startsWith s p = (take (length p) s = p)"

definition sampleLib :: lib where
  "sampleLib =
     \<lparr>md5Sum = (\<lambda>s. 0),
      TrimSpace = (\<lambda>s. s),
      Join = (\<lambda>p n. p @ ''/'' @ n),
      Rel = (\<lambda>base p.
               if p = base then Some ''.''
               else if startsWith p (base @ ''/'') then Some (drop (length base + 1) p)
               else None),
      Base = (\<lambda>p. last (splitOn PathSeparator p)),
      IsVendor = (\<lambda>p. startsWith p ''vendor/''),
      IsDotFile = (\<lambda>p. startsWith (last (splitOn PathSeparator p)) ''.''),
      IsDocumentation = (\<lambda>p. False),
      IsConfiguration = (\<lambda>p. False),
      IsGenerated = (\<lambda>p content. content \<noteq> [] \<and> hd content = 1),
      GetLanguage = (\<lambda>name content.
               if endsWith name ''.go'' then ''Go''
               else if endsWith name ''.py'' then ''Python''
               else if endsWith name ''.md'' then ''Markdown''
               else ''''),
      GetLanguageType = (\<lambda>l. if l = ''Go'' \<or> l = ''Python'' then Programming else Prose)\<rparr>"

definition sampleWorld :: world where
  "sampleWorld =
     \<lparr>env_SALT = '''', env_DEVICEID = '''', env_QODANA_REMOTE_URL = '''',
      git_remote_url = None, env_QODANA_DOCKER = ''true'',
      env_QODANA_TREAT_AS_RELEASE = '''', allowedToSendFUS = False,
      parentPrefix = ''Rider'', versionBranch = ''241'', containerJvmDebugPort = ''5005'',
      CustomPluginsPath = ''/opt/custom'', customPluginsDir = DirMissing\<rparr>"

definition sampleOpts :: opts where
  "sampleOpts =
     \<lparr>LogDirPath = ''/log'', ConfDirPath = ''/conf'', CacheDir = ''/cache'',
      AnalysisId = ''id'', CoverageDirPath = '''', JvmDebugPort = 0,
      cliProps = [], flags = []\<rparr>"

definition sampleDotNet :: DotNet where
  "sampleDotNet =
     \<lparr>Project = '''', Solution = '''', Configuration = '''', Platform = '''', Frameworks = ''''\<rparr>"

definition plainFile :: "byte list \<Rightarrow> osfile" where
  "plainFile bs = \<lparr>fopen_ok = True, fstat_ok = True, fdata = bs, fread_fail = None\<rparr>"

text \<open>The default layer that \<open>getPropertiesMap\<close> builds for the sample inputs.\<close>

definition sampleDefaults :: props where
  "sampleDefaults =
     [(''-Didea.headless.enable.statistics'', ''false''),
      (''-Didea.headless.statistics.device.id'', ''200820300000000-0000-0000-0000-000000000000''),
      (''-Didea.headless.statistics.salt'', ''00000000000000000000000000000000''),
      (''-Didea.config.path'', ''/conf''),
      (''-Didea.system.path'', ''/cache/idea/241''),
      (''-Didea.plugins.path'', ''/cache/plugins/241''),
      (''-Didea.log.path'', ''/log''),
      (''-Dqodana.automation.guid'', ''id''),
      (''-XX:MaxRAMPercentage'', ''70''),
      (''-Dqodana.net.targetFrameworks'', netFrameworkDenylist)]"

text \<open>
  The same stand-in with a generated-file test that looks at the whole content it is
  given: a file is generated if the byte 1 (the marker) occurs anywhere in it.
\<close>

definition markerLib :: lib where
  "markerLib = sampleLib\<lparr>IsGenerated := (\<lambda>p content. 1 \<in> set content)\<rparr>"


section \<open>Properties of the helpers\<close>

lemma Contains_iff: "Contains s str \<longleftrightarrow> str \<in> set s"
  by (induction s) auto

text \<open>
  Claim C10. For a non-empty variadic list, \<open>Append\<close> returns the slice unchanged when
  the first element is already in it and the slice with exactly that element appended
  otherwise; the remaining elements are ignored; appending the same element twice is the
  same as appending it once.
\<close>

theorem Append_first_only:
  "Append s (e # es) = Inr (if e \<in> set s then s else s @ [e])
   \<and> Append s (e # es) = Append s [e]
   \<and> (elems \<noteq> [] \<longrightarrow> Append s elems = Append s [hd elems])
   \<and> (\<forall>r. Append s [e] = Inr r \<longrightarrow> Append r [e] = Inr r)"
proof -
  have first: "Append s (e # es) = Inr (if e \<in> set s then s else s @ [e])"
    by (simp add: Contains_iff)
  have ignore: "Append s (e # es) = Append s [e]"
    by simp
  have general: "elems \<noteq> [] \<longrightarrow> Append s elems = Append s [hd elems]"
    by (cases elems) simp_all
  have idem: "\<forall>r. Append s [e] = Inr r \<longrightarrow> Append r [e] = Inr r"
    by (auto simp: Contains_iff split: if_splits)
  from first ignore general idem show ?thesis by blast
qed

theorem Append_first_only_witness:
  "Append [''Java'', ''Go''] [''Go'', ''Python''] = Inr [''Java'', ''Go'']
   \<and> Append [''Java''] [''Go'', ''Python''] = Inr [''Java'', ''Go'']
   \<and> Append [''Java'', ''Go''] [''Go''] = Inr [''Java'', ''Go'']"
proof -
  have a: "Append [''Java'', ''Go''] (''Go'' # [''Python'']) = Inr [''Java'', ''Go'']"
    using Append_first_only [of "[''Java'', ''Go'']" "''Go''" "[''Python'']" "[''Go'']"]
    by simp
  have b: "Append [''Java''] (''Go'' # [''Python'']) = Inr [''Java'', ''Go'']"
    using Append_first_only [of "[''Java'']" "''Go''" "[''Python'']" "[''Go'']"]
    by simp
  have c: "Append [''Java'', ''Go''] [''Go''] = Inr [''Java'', ''Go'']"
    by simp
  from a b c show ?thesis by simp
qed

text \<open>
  Claim C5. The content sample that the scan reads from a file (\<open>readFile\<close> with the
  limit \<open>limitKb\<close>) is a prefix of the file of at most 65536 bytes, whatever the size
  of the file; a file longer than the bound is never returned whole. (The bound the code
  enforces is in fact 64 bytes: the constant 64 is handed to \<open>readFile\<close> as a byte
  count.)
\<close>

theorem readFile_bounded_prefix:
  "readFile f limitKb = (content, err) \<Longrightarrow>
     prefix content (fdata f)
     \<and> length content \<le> 65536
     \<and> length content \<le> 64
     \<and> (65536 < length (fdata f) \<longrightarrow> content \<noteq> fdata f)"
proof -
  assume r: "readFile f limitKb = (content, err)"
  have "content = [] \<or> (\<exists>k. content = take k (fdata f) \<and> length content \<le> 64)"
    using r
    by (auto simp: readFile_def limitKb_def copyLimited_def
        split: if_splits option.splits)
  then have pre: "prefix content (fdata f)" and len: "length content \<le> 64"
    by (auto simp: take_is_prefix)
  from len have "65536 < length (fdata f) \<longrightarrow> content \<noteq> fdata f"
    by auto
  with pre len show ?thesis by simp
qed

theorem readFile_bounded_prefix_witness:
  "readFile \<lparr>fopen_ok = True, fstat_ok = True, fdata = replicate 100 7, fread_fail = None\<rparr> limitKb
     = (replicate 64 7, None)
   \<and> prefix (replicate 64 (7::byte)) (replicate 100 7)
   \<and> length (replicate 64 (7::byte)) \<le> 65536"
proof -
  let ?f = "\<lparr>fopen_ok = True, fstat_ok = True, fdata = replicate 100 (7::byte), fread_fail = None\<rparr>"
  have r: "readFile ?f limitKb = (replicate 64 7, None)"
    by (simp add: readFile_def limitKb_def copyLimited_def)
  from readFile_bounded_prefix [OF r] r show ?thesis
    by simp
qed

section \<open>Device id and salt\<close>

lemma length_hex128: "length (hex128 x) = 32"
  by (simp add: hex128_def)

lemma substr_ok: "lo \<le> hi \<Longrightarrow> hi \<le> length s \<Longrightarrow> substr s lo hi = Inr (take (hi - lo) (drop lo s))"
  by (simp add: substr_def)

lemma deviceId_total:
  "length h = 32 \<Longrightarrow>
   (case substr h 0 4 of Inl x \<Rightarrow> Inl x | Inr a \<Rightarrow>
     (case substr h 4 8 of Inl x \<Rightarrow> Inl x | Inr b \<Rightarrow>
     (case substr h 8 12 of Inl x \<Rightarrow> Inl x | Inr c \<Rightarrow>
     (case substr h 12 24 of Inl x \<Rightarrow> Inl x | Inr d \<Rightarrow>
        Inr [p @ a @ ''-'' @ b @ ''-'' @ c @ ''-'' @ d, s]))))
   = Inr [p @ take 4 h @ ''-'' @ take 4 (drop 4 h) @ ''-'' @ take 4 (drop 8 h) @ ''-'' @ take 12 (drop 12 h), s]"
  by (simp add: substr_def)

text \<open>The result of \<open>GetDeviceIdSalt\<close> in closed form: no slice of the hash is out of range.\<close>

lemma GetDeviceIdSalt_eq:
  "GetDeviceIdSalt L w =
     (let hash = (if getRemoteUrl L w \<noteq> '''' then hex128 (md5Sum L (''1n1T-$@Lt-'' @ getRemoteUrl L w))
                  else ''00000000000000000000000000000000'')
      in Inr [if env_DEVICEID w = '''' then
                ''200820300000000-'' @ take 4 hash @ ''-'' @ take 4 (drop 4 hash) @ ''-''
                  @ take 4 (drop 8 hash) @ ''-'' @ take 12 (drop 12 hash)
              else env_DEVICEID w,
              if env_SALT w = '''' then hex128 (md5Sum L (''$eC0nd-$@Lt-'' @ hash))
              else env_SALT w])"
  unfolding GetDeviceIdSalt_def Let_def
  by (simp add: deviceId_total length_hex128)

lemma hex128_zero: "hex128 0 = ''00000000000000000000000000000000''"
  by (simp add: hex128_def hexDigit_def upt_rec)

lemma sample_md5: "md5Sum sampleLib s = 0"
  by (simp add: sampleLib_def)

lemma sample_url:
  "getRemoteUrl sampleLib sampleWorld = ''''"
  "getRemoteUrl sampleLib (sampleWorld\<lparr>env_SALT := x\<rparr>) = ''''"
  "getRemoteUrl sampleLib (sampleWorld\<lparr>env_QODANA_DOCKER := y, versionBranch := z\<rparr>) = ''''"
  by (simp_all add: getRemoteUrl_def sampleWorld_def)

text \<open>
  Claim C7 (as amended). The derivation of device id and salt never fails and always
  returns a pair. The pair is a function of the remote URL and of the environment values
  \<open>SALT\<close> and \<open>DEVICEID\<close>: a value that is present is returned as it is, a value that
  is absent is derived from the URL alone. So two environments that agree on the URL and
  on the two values give the same pair, whatever else differs; a derived salt and a
  derived device id depend on the URL only; and where a value is derived from an empty
  URL, the hash is the all-zero placeholder.
\<close>

theorem GetDeviceIdSalt_pure_total:
  "(\<exists>d s. GetDeviceIdSalt L w = Inr [d, s])
   \<and> (env_SALT w = env_SALT w' \<longrightarrow> env_DEVICEID w = env_DEVICEID w' \<longrightarrow>
        getRemoteUrl L w = getRemoteUrl L w' \<longrightarrow> GetDeviceIdSalt L w = GetDeviceIdSalt L w')
   \<and> (env_SALT w \<noteq> '''' \<longrightarrow> (\<exists>d. GetDeviceIdSalt L w = Inr [d, env_SALT w]))
   \<and> (env_DEVICEID w \<noteq> '''' \<longrightarrow> (\<exists>s. GetDeviceIdSalt L w = Inr [env_DEVICEID w, s]))
   \<and> (env_SALT w = '''' \<longrightarrow> env_SALT w' = '''' \<longrightarrow> getRemoteUrl L w = getRemoteUrl L w' \<longrightarrow>
        (\<exists>d d' s. GetDeviceIdSalt L w = Inr [d, s] \<and> GetDeviceIdSalt L w' = Inr [d', s]))
   \<and> (env_DEVICEID w = '''' \<longrightarrow> env_DEVICEID w' = '''' \<longrightarrow> getRemoteUrl L w = getRemoteUrl L w' \<longrightarrow>
        (\<exists>d s s'. GetDeviceIdSalt L w = Inr [d, s] \<and> GetDeviceIdSalt L w' = Inr [d, s']))
   \<and> (env_SALT w = '''' \<longrightarrow> getRemoteUrl L w = '''' \<longrightarrow>
        (\<exists>d. GetDeviceIdSalt L w =
           Inr [d, hex128 (md5Sum L ''$eC0nd-$@Lt-00000000000000000000000000000000'')]))
   \<and> (env_DEVICEID w = '''' \<longrightarrow> getRemoteUrl L w = '''' \<longrightarrow>
        (\<exists>s. GetDeviceIdSalt L w = Inr [''200820300000000-0000-0000-0000-000000000000'', s]))"
proof -
  have total: "\<exists>d s. GetDeviceIdSalt L w = Inr [d, s]"
    by (simp add: GetDeviceIdSalt_eq Let_def)
  have pure: "env_SALT w = env_SALT w' \<longrightarrow> env_DEVICEID w = env_DEVICEID w' \<longrightarrow>
        getRemoteUrl L w = getRemoteUrl L w' \<longrightarrow> GetDeviceIdSalt L w = GetDeviceIdSalt L w'"
  proof (intro impI)
    assume "env_SALT w = env_SALT w'" "env_DEVICEID w = env_DEVICEID w'"
      "getRemoteUrl L w = getRemoteUrl L w'"
    then show "GetDeviceIdSalt L w = GetDeviceIdSalt L w'"
      unfolding GetDeviceIdSalt_def by presburger
  qed
  have keep_salt: "env_SALT w \<noteq> '''' \<longrightarrow> (\<exists>d. GetDeviceIdSalt L w = Inr [d, env_SALT w])"
    by (simp add: GetDeviceIdSalt_eq Let_def)
  have keep_id: "env_DEVICEID w \<noteq> '''' \<longrightarrow> (\<exists>s. GetDeviceIdSalt L w = Inr [env_DEVICEID w, s])"
    by (simp add: GetDeviceIdSalt_eq Let_def)
  have salt_url: "env_SALT w = '''' \<longrightarrow> env_SALT w' = '''' \<longrightarrow>
        getRemoteUrl L w = getRemoteUrl L w' \<longrightarrow>
        (\<exists>d d' s. GetDeviceIdSalt L w = Inr [d, s] \<and> GetDeviceIdSalt L w' = Inr [d', s])"
    by (simp add: GetDeviceIdSalt_eq Let_def)
  have id_url: "env_DEVICEID w = '''' \<longrightarrow> env_DEVICEID w' = '''' \<longrightarrow>
        getRemoteUrl L w = getRemoteUrl L w' \<longrightarrow>
        (\<exists>d s s'. GetDeviceIdSalt L w = Inr [d, s] \<and> GetDeviceIdSalt L w' = Inr [d, s'])"
    by (simp add: GetDeviceIdSalt_eq Let_def)
  have zero_salt: "env_SALT w = '''' \<longrightarrow> getRemoteUrl L w = '''' \<longrightarrow>
        (\<exists>d. GetDeviceIdSalt L w =
           Inr [d, hex128 (md5Sum L ''$eC0nd-$@Lt-00000000000000000000000000000000'')])"
    by (simp add: GetDeviceIdSalt_eq Let_def)
  have zero_id: "env_DEVICEID w = '''' \<longrightarrow> getRemoteUrl L w = '''' \<longrightarrow>
        (\<exists>s. GetDeviceIdSalt L w = Inr [''200820300000000-0000-0000-0000-000000000000'', s])"
    by (simp add: GetDeviceIdSalt_eq Let_def)
  from total pure keep_salt keep_id salt_url id_url zero_salt zero_id show ?thesis
    by blast
qed

theorem GetDeviceIdSalt_pure_total_witness:
  "GetDeviceIdSalt sampleLib (sampleWorld\<lparr>env_QODANA_DOCKER := '''', versionBranch := ''233''\<rparr>)
       = GetDeviceIdSalt sampleLib sampleWorld
   \<and> (\<exists>s. GetDeviceIdSalt sampleLib sampleWorld
            = Inr [''200820300000000-0000-0000-0000-000000000000'', s])
   \<and> (\<exists>d. GetDeviceIdSalt sampleLib (sampleWorld\<lparr>env_SALT := ''x''\<rparr>) = Inr [d, ''x''])"
proof -
  let ?w' = "sampleWorld\<lparr>env_QODANA_DOCKER := '''', versionBranch := ''233''\<rparr>"
  let ?wx = "sampleWorld\<lparr>env_SALT := ''x''\<rparr>"
  have e: "env_SALT sampleWorld = ''''" "env_DEVICEID sampleWorld = ''''"
     "env_SALT ?w' = ''''" "env_DEVICEID ?w' = ''''" "env_SALT ?wx = ''x''"
    by (simp_all add: sampleWorld_def)
  have x: "env_SALT ?wx \<noteq> ''''"
    by (simp add: e)
  have a: "GetDeviceIdSalt sampleLib ?w' = GetDeviceIdSalt sampleLib sampleWorld"
    using GetDeviceIdSalt_pure_total [of sampleLib ?w' sampleWorld] sample_url(1,3) e
    by metis
  have b: "\<exists>s. GetDeviceIdSalt sampleLib sampleWorld
            = Inr [''200820300000000-0000-0000-0000-000000000000'', s]"
    using GetDeviceIdSalt_pure_total [of sampleLib sampleWorld sampleWorld] sample_url(1) e(2)
    by blast
  have c: "\<exists>d. GetDeviceIdSalt sampleLib ?wx = Inr [d, ''x'']"
    using GetDeviceIdSalt_pure_total [of sampleLib ?wx ?wx] x e(5)
    by metis
  from a b c show ?thesis by blast
qed

text \<open>
  The claim as stated fails where the environment supplies one of the two values: with the
  same (empty) remote URL, a run with \<open>SALT=x\<close> and a run without it return different
  pairs.
\<close>

theorem deviceIdSalt_environment_counterexample:
  "getRemoteUrl sampleLib (sampleWorld\<lparr>env_SALT := ''x''\<rparr>) = getRemoteUrl sampleLib sampleWorld
   \<and> GetDeviceIdSalt sampleLib (sampleWorld\<lparr>env_SALT := ''x''\<rparr>)
      = Inr [''200820300000000-0000-0000-0000-000000000000'', ''x'']
   \<and> GetDeviceIdSalt sampleLib sampleWorld
      = Inr [''200820300000000-0000-0000-0000-000000000000'', ''00000000000000000000000000000000'']"
proof -
  have e: "env_SALT sampleWorld = ''''" "env_DEVICEID sampleWorld = ''''"
    "env_SALT (sampleWorld\<lparr>env_SALT := ''x''\<rparr>) = ''x''"
    "env_DEVICEID (sampleWorld\<lparr>env_SALT := ''x''\<rparr>) = ''''"
    by (simp_all add: sampleWorld_def)
  show ?thesis
    by (simp add: GetDeviceIdSalt_eq sample_url sample_md5 hex128_zero e)
qed

section \<open>The default layer\<close>

lemma map_of_update: "map_of (AList.update k v al) k' = (if k' = k then Some v else map_of al k')"
  by (simp add: update_conv')

lemma run_Nil: "run s [] = s"
  by (simp add: run_def)

lemma run_Cons: "run s (stmt # stmts) = run (stmt s) stmts"
  by (simp add: run_def)

text \<open>An assignment keeps the keys of the map distinct.\<close>

lemma assign_distinct:
  "distinct (map fst m) \<Longrightarrow> distinct (map fst (s m)) \<Longrightarrow>
   distinct (map fst ((if c then AList.update k v else s) m))"
  by (simp add: distinct_update)

lemma id_distinct: "distinct (map fst m) \<Longrightarrow> distinct (map fst (id m))"
  by simp

lemma block_distinct:
  "distinct (map fst (f m)) \<Longrightarrow> distinct (map fst m) \<Longrightarrow>
   distinct (map fst ((if c then f else id) m))"
  by simp

lemma getPropertiesMap_distinct:
  assumes "getPropertiesMap w p sd ld cd pd dn ds pl aid cov = Inr props"
  shows "distinct (map fst props)"
proof -
  from assms obtain d0 d1 rest where ds: "ds = d0 # d1 # rest"
    by (cases ds rule: list.exhaust; cases "tl ds" rule: list.exhaust)
       (auto simp: getPropertiesMap_def)
  have base: "distinct (map fst
      [(''-Didea.headless.enable.statistics'', FormatBool (allowedToSendFUS w)),
       (''-Didea.headless.statistics.device.id'', d0),
       (''-Didea.headless.statistics.salt'', d1),
       (''-Didea.config.path'', QuoteIfSpace cd),
       (''-Didea.system.path'', QuoteIfSpace sd),
       (''-Didea.plugins.path'', QuoteIfSpace pd),
       (''-Didea.log.path'', QuoteIfSpace ld),
       (''-Dqodana.automation.guid'', QuoteIfSpace aid),
       (''-XX:MaxRAMPercentage'', ''70'')])"
    by simp
  from assms have "Inr props = getPropertiesMap w p sd ld cd pd dn ds pl aid cov"
    by simp
  then have "props = projr (getPropertiesMap w p sd ld cd pd dn ds pl aid cov)"
    by (metis sum.sel(2))
  then show ?thesis
    unfolding getPropertiesMap_def ds list.case sum.sel run_Cons run_Nil
    apply (elim ssubst)
    apply (rule block_distinct)
     apply (intro assign_distinct id_distinct base)
    apply (intro assign_distinct id_distinct base)
    done
qed

text \<open>Looking a key up after an assignment to another key, to the same key, and after a block.\<close>

lemma lookup_assign_other:
  "k \<noteq> K \<Longrightarrow> map_of ((if c then AList.update k v else id) m) K = map_of m K"
  by (simp add: map_of_update)

lemma lookup_assign_other2:
  "k1 \<noteq> K \<Longrightarrow> k2 \<noteq> K \<Longrightarrow>
   map_of ((if c1 then AList.update k1 v1 else if c2 then AList.update k2 v2 else id) m) K
     = map_of m K"
  by (simp add: map_of_update)

lemma lookup_assign_same2:
  "map_of ((if c1 then AList.update K v1 else if c2 then AList.update K v2 else id) m) K
     = (if c1 then Some v1 else if c2 then Some v2 else map_of m K)"
  by (simp add: map_of_update)

text \<open>
  Claim C8 (as amended). The denylist of legacy target frameworks is the value of
  \<open>-Dqodana.net.targetFrameworks\<close> in the default layer exactly when the product prefix
  is \<open>Rider\<close>, no \<open>Frameworks\<close> value is given in the .NET options and the run is inside
  a container; outside \<open>Rider\<close> the key is never set, and a \<open>Frameworks\<close> value wins
  over the denylist. No environment variable for frameworks is consulted.
\<close>

theorem targetFrameworks_assignment:
  assumes "getPropertiesMap w p sd ld cd pd dn ds pl aid cov = Inr props"
  shows "map_of props ''-Dqodana.net.targetFrameworks'' =
           (if p = ''Rider'' then
              (if Frameworks dn \<noteq> '''' then Some (QuoteIfSpace (Frameworks dn))
               else if IsContainer w then Some netFrameworkDenylist
               else None)
            else None)
         \<and> (Frameworks dn = '''' \<longrightarrow>
              (map_of props ''-Dqodana.net.targetFrameworks'' = Some netFrameworkDenylist
                 \<longleftrightarrow> p = ''Rider'' \<and> IsContainer w))"
proof -
  from assms obtain d0 d1 rest where ds: "ds = d0 # d1 # rest"
    by (cases ds rule: list.exhaust; cases "tl ds" rule: list.exhaust)
       (auto simp: getPropertiesMap_def)
  from assms have "Inr props = getPropertiesMap w p sd ld cd pd dn ds pl aid cov"
    by simp
  then have "props = projr (getPropertiesMap w p sd ld cd pd dn ds pl aid cov)"
    by (metis sum.sel(2))
  then have a: "map_of props ''-Dqodana.net.targetFrameworks'' =
           (if p = ''Rider'' then
              (if Frameworks dn \<noteq> '''' then Some (QuoteIfSpace (Frameworks dn))
               else if IsContainer w then Some netFrameworkDenylist
               else None)
            else None)"
    unfolding getPropertiesMap_def ds list.case sum.sel run_Cons run_Nil
    by (elim ssubst, cases "p = ''Rider''")
       (simp_all add: lookup_assign_same2 lookup_assign_other lookup_assign_other2
          split del: if_split cong: if_cong)
  have "Frameworks dn = '''' \<longrightarrow>
           (map_of props ''-Dqodana.net.targetFrameworks'' = Some netFrameworkDenylist
              \<longleftrightarrow> p = ''Rider'' \<and> IsContainer w)"
    unfolding a by simp
  with a show ?thesis by blast
qed

lemma getPropertiesMap_Inr:
  "getPropertiesMap w p sd ld cd pd dn (d0 # d1 # rest) pl aid cov
     = Inr (projr (getPropertiesMap w p sd ld cd pd dn (d0 # d1 # rest) pl aid cov))"
  by (simp add: getPropertiesMap_def)

theorem targetFrameworks_assignment_witness:
  "map_of (projr (getPropertiesMap sampleWorld ''Rider'' ''/s'' ''/l'' ''/c'' ''/p'' sampleDotNet
                    [''d'', ''s''] [] ''id'' ''''))
          ''-Dqodana.net.targetFrameworks'' = Some netFrameworkDenylist
   \<and> map_of (projr (getPropertiesMap sampleWorld ''Rider'' ''/s'' ''/l'' ''/c'' ''/p''
                       (sampleDotNet\<lparr>Frameworks := ''net8.0''\<rparr>) [''d'', ''s''] [] ''id'' ''''))
          ''-Dqodana.net.targetFrameworks'' = Some ''net8.0''"
proof -
  have c: "IsContainer sampleWorld"
    by (simp add: IsContainer_def sampleWorld_def)
  have f: "Frameworks sampleDotNet = ''''" "Frameworks (sampleDotNet\<lparr>Frameworks := ''net8.0''\<rparr>) = ''net8.0''"
    by (simp_all add: sampleDotNet_def)
  have q: "QuoteIfSpace ''net8.0'' = ''net8.0''"
    by (simp add: QuoteIfSpace_def)
  from targetFrameworks_assignment [OF getPropertiesMap_Inr, of sampleWorld "''Rider''" _ _ _ _ sampleDotNet]
    c f(1)
  have a: "map_of (projr (getPropertiesMap sampleWorld ''Rider'' ''/s'' ''/l'' ''/c'' ''/p'' sampleDotNet
                    [''d'', ''s''] [] ''id'' ''''))
          ''-Dqodana.net.targetFrameworks'' = Some netFrameworkDenylist"
    by simp
  from targetFrameworks_assignment [OF getPropertiesMap_Inr, of sampleWorld "''Rider''" _ _ _ _
      "sampleDotNet\<lparr>Frameworks := ''net8.0''\<rparr>"] f(2) q
  have b: "map_of (projr (getPropertiesMap sampleWorld ''Rider'' ''/s'' ''/l'' ''/c'' ''/p''
                       (sampleDotNet\<lparr>Frameworks := ''net8.0''\<rparr>) [''d'', ''s''] [] ''id'' ''''))
          ''-Dqodana.net.targetFrameworks'' = Some ''net8.0''"
    by simp
  from a b show ?thesis by simp
qed

text \<open>
  The claim as stated fails where the product is not \<open>Rider\<close>: inside a container and
  with no \<open>Frameworks\<close> value, the default layer of the \<open>Idea\<close> product has no
  \<open>-Dqodana.net.targetFrameworks\<close> at all.
\<close>

theorem targetFrameworks_counterexample:
  "IsContainer sampleWorld \<and> Frameworks sampleDotNet = ''''
   \<and> \<not> isl (getPropertiesMap sampleWorld ''Idea'' ''/s'' ''/l'' ''/c'' ''/p'' sampleDotNet
               [''d'', ''s''] [] ''id'' '''')
   \<and> map_of (projr (getPropertiesMap sampleWorld ''Idea'' ''/s'' ''/l'' ''/c'' ''/p'' sampleDotNet
                       [''d'', ''s''] [] ''id'' ''''))
          ''-Dqodana.net.targetFrameworks'' = None"
  by (simp add: IsContainer_def sampleWorld_def sampleDotNet_def getPropertiesMap_def
      run_Cons run_Nil)

section \<open>Merging the layers\<close>

lemma layerMap_Nil: "layerMap [] = Map.empty"
  by (simp add: layerMap_def)

lemma layerMap_Cons: "layerMap ((k, v) # layer) = [optionKey k \<mapsto> v] ++ layerMap layer"
  by (simp add: layerMap_def)

lemma overrideProps_map_of:
  "map_of (overrideProps props layer) = map_of props ++ layerMap layer"
proof (induction layer arbitrary: props)
  case Nil
  show ?case by (simp add: layerMap_Nil)
next
  case (Cons e layer)
  obtain k v where e: "e = (k, v)" by (cases e)
  have "map_of (overrideProps props (e # layer))
          = map_of (AList.update (optionKey k) v props) ++ layerMap layer"
    using Cons.IH by (simp add: e)
  also have "\<dots> = (map_of props ++ [optionKey k \<mapsto> v]) ++ layerMap layer"
    by (simp add: update_conv')
  also have "\<dots> = map_of props ++ layerMap (e # layer)"
    by (simp add: e layerMap_Cons)
  finally show ?case .
qed

lemma overrideProps_distinct:
  "distinct (map fst props) \<Longrightarrow> distinct (map fst (overrideProps props layer))"
  by (induction layer arbitrary: props) (auto simp: distinct_update)

text \<open>A layer without two keys for the same option maps each of its entries.\<close>

lemma layerMap_entry:
  "(k, v) \<in> set layer \<Longrightarrow> distinct (map (optionKey \<circ> fst) layer) \<Longrightarrow>
   layerMap layer (optionKey k) = Some v"
proof (induction layer)
  case Nil
  then show ?case by simp
next
  case (Cons e layer)
  obtain k' v' where e: "e = (k', v')" by (cases e)
  show ?case
  proof (cases "(k, v) \<in> set layer")
    case True
    with Cons have "layerMap layer (optionKey k) = Some v" by simp
    then show ?thesis by (simp add: e layerMap_Cons map_add_def)
  next
    case False
    with Cons.prems e have kv: "k' = k" "v' = v" by auto
    from Cons.prems(2) have "optionKey k \<notin> (optionKey \<circ> fst) ` set layer"
      by (simp add: e kv)
    then have "layerMap layer (optionKey k) = None"
      by (force simp: layerMap_def map_of_eq_None_iff image_iff)
    then show ?thesis by (simp add: e kv layerMap_Cons map_add_def)
  qed
qed

lemma single_entry:
  "distinct (map fst props) \<Longrightarrow> map_of props K = Some v \<Longrightarrow>
   filter (\<lambda>e. fst e = K) props = [(K, v)]"
proof (induction props)
  case Nil
  then show ?case by simp
next
  case (Cons e props)
  show ?case
  proof (cases "fst e = K")
    case True
    with Cons.prems have "e = (K, v)" by (cases e) simp
    moreover from Cons.prems True have "filter (\<lambda>e. fst e = K) props = []"
      by (force simp: filter_empty_conv image_iff)
    ultimately show ?thesis by simp
  next
    case False
    with Cons show ?thesis by (cases e) auto
  qed
qed

lemma propLines_member: "map_of props K = Some v \<Longrightarrow> K @ ''='' @ v \<in> set (propLines props)"
  by (force simp: propLines_def dest: map_of_SomeD)

lemma layerMap_iff:
  assumes "distinct (map (optionKey \<circ> fst) layer)"
  shows "layerMap layer K = Some v \<longleftrightarrow> (\<exists>k. (k, v) \<in> set layer \<and> optionKey k = K)"
proof
  assume "layerMap layer K = Some v"
  then have "(K, v) \<in> set (rev (map (\<lambda>(k, v). (optionKey k, v)) layer))"
    unfolding layerMap_def by (rule map_of_SomeD)
  then have "(K, v) \<in> (\<lambda>(k, v). (optionKey k, v)) ` set layer"
    by simp
  then obtain e where e: "e \<in> set layer" "(K, v) = (\<lambda>(k, v). (optionKey k, v)) e"
    by (rule imageE)
  obtain k v' where kv: "e = (k, v')" by (cases e)
  from e kv have "(k, v) \<in> set layer" "optionKey k = K"
    by simp_all
  then show "\<exists>k. (k, v) \<in> set layer \<and> optionKey k = K"
    by blast
next
  assume "\<exists>k. (k, v) \<in> set layer \<and> optionKey k = K"
  then obtain k where "(k, v) \<in> set layer" "optionKey k = K"
    by blast
  with layerMap_entry [OF this(1) assms] show "layerMap layer K = Some v"
    by simp
qed

lemma layerMap_reorder:
  assumes "mset layer' = mset layer" and "distinct (map (optionKey \<circ> fst) layer)"
  shows "layerMap layer' = layerMap layer"
proof (rule ext)
  fix K
  from assms(1) have "mset (map (optionKey \<circ> fst) layer') = mset (map (optionKey \<circ> fst) layer)"
    by simp
  then have "distinct (map (optionKey \<circ> fst) layer') = distinct (map (optionKey \<circ> fst) layer)"
    by (rule mset_eq_imp_distinct_iff)
  with assms(2) have d': "distinct (map (optionKey \<circ> fst) layer')"
    by simp
  from assms(1) have s: "set layer' = set layer"
    by (rule mset_eq_setD)
  have "layerMap layer' K = Some v \<longleftrightarrow> layerMap layer K = Some v" for v
    unfolding layerMap_iff [OF d'] layerMap_iff [OF assms(2)] s ..
  then show "layerMap layer' K = layerMap layer K"
    by (metis option.exhaust)
qed

text \<open>The flag loop: what it does to the number of occurrences of a line.\<close>

lemma addFlags_count:
  "count_list (addFlags lines fs) f =
     (if f \<in> set lines then count_list lines f
      else if f \<in> set fs \<and> f \<noteq> '''' then 1 else 0)"
proof (induction fs arbitrary: lines)
  case Nil
  show ?case by (simp add: count_list_0_iff)
next
  case (Cons g fs)
  show ?case
  proof (cases "g \<noteq> '''' \<and> \<not> Contains lines g")
    case True
    then have "count_list (addFlags lines (g # fs)) f = count_list (addFlags (lines @ [g]) fs) f"
      by simp
    also have "\<dots> = (if f \<in> set (lines @ [g]) then count_list (lines @ [g]) f
                      else if f \<in> set fs \<and> f \<noteq> '''' then 1 else 0)"
      by (rule Cons.IH)
    also have "\<dots> = (if f \<in> set lines then count_list lines f
                      else if f \<in> set (g # fs) \<and> f \<noteq> '''' then 1 else 0)"
      using True by (auto simp: Contains_iff count_list_0_iff)
    finally show ?thesis .
  next
    case False
    then have "count_list (addFlags lines (g # fs)) f = count_list (addFlags lines fs) f"
      by auto
    also have "\<dots> = (if f \<in> set lines then count_list lines f
                      else if f \<in> set fs \<and> f \<noteq> '''' then 1 else 0)"
      by (rule Cons.IH)
    also have "\<dots> = (if f \<in> set lines then count_list lines f
                      else if f \<in> set (g # fs) \<and> f \<noteq> '''' then 1 else 0)"
      using False by (auto simp: Contains_iff)
    finally show ?thesis .
  qed
qed

text \<open>Two maps with the same entries give the same sorted lines.\<close>

lemma same_map_same_entries:
  assumes "distinct (map fst xs)" and "distinct (map fst ys)" and "map_of xs = map_of ys"
  shows "mset xs = mset ys"
proof -
  from assms have "set xs = set ys"
    by (simp add: map_of_inject_set)
  moreover from assms(1,2) have "distinct xs" "distinct ys"
    by (simp_all add: distinct_map)
  ultimately show ?thesis
    by (simp add: set_eq_iff_mset_eq_distinct)
qed

lemma sort_cong_mset: "mset xs = mset ys \<Longrightarrow> sort xs = sort (ys :: string list)"
  by (rule properties_for_sort) simp_all

text \<open>\<open>GetProperties\<close> fails only if the custom plugins directory cannot be read.\<close>

lemma GetDeviceIdSalt_returns: "\<exists>d s. GetDeviceIdSalt L w = Inr [d, s]"
  unfolding GetDeviceIdSalt_def Let_def
  by (simp add: deviceId_total length_hex128)

lemma defaultProps_returns:
  "\<exists>defaults. defaultProps L w opts dn pl = Inr defaults \<and> distinct (map fst defaults)"
proof -
  obtain d s where ds: "GetDeviceIdSalt L w = Inr [d, s]"
    using GetDeviceIdSalt_returns by blast
  define g where "g = getPropertiesMap w (parentPrefix w)
            (Join L (Join L (CacheDir opts) ''idea'') (versionBranch w))
            (LogDirPath opts) (ConfDirPath opts)
            (Join L (Join L (CacheDir opts) ''plugins'') (versionBranch w))
            dn [d, s] pl (AnalysisId opts) (CoverageDirPath opts)"
  have dp: "defaultProps L w opts dn pl = g"
    by (simp add: defaultProps_def ds g_def)
  have i: "g = Inr (projr g)"
    unfolding g_def by (rule getPropertiesMap_Inr)
  then have "distinct (map fst (projr g))"
    unfolding g_def by (rule getPropertiesMap_distinct)
  with i dp show ?thesis by metis
qed

lemma defaultProps_cliProps [simp]:
  "defaultProps L w (opts\<lparr>cliProps := c\<rparr>) dn pl = defaultProps L w opts dn pl"
  by (cases "GetDeviceIdSalt L w") (simp_all add: defaultProps_def)

lemma baseLines_cliProps [simp]:
  "baseLines L w (opts\<lparr>cliProps := c\<rparr>) cpp = baseLines L w opts cpp"
  by (simp add: baseLines_def)

lemma GetProperties_cases:
  assumes "GetProperties L w opts yaml dn pl = Inr out"
  obtains cpp defaults where
    "getCustomPluginPaths L w = Inr cpp"
    "defaultProps L w opts dn pl = Inr defaults"
    "distinct (map fst defaults)"
    "mergedProps L w opts yaml dn pl = Inr (overrideProps (overrideProps defaults yaml) (cliProps opts))"
    "out = sort (addFlags (baseLines L w opts cpp) (flags opts)
                 @ propLines (overrideProps (overrideProps defaults yaml) (cliProps opts)))"
proof -
  obtain defaults where d: "defaultProps L w opts dn pl = Inr defaults" "distinct (map fst defaults)"
    using defaultProps_returns by blast
  from assms obtain cpp where c: "getCustomPluginPaths L w = Inr cpp"
    by (cases "getCustomPluginPaths L w") (simp_all add: GetProperties_def)
  have m: "mergedProps L w opts yaml dn pl
             = Inr (overrideProps (overrideProps defaults yaml) (cliProps opts))"
    by (simp add: mergedProps_def d)
  from assms have "out = sort (addFlags (baseLines L w opts cpp) (flags opts)
                 @ propLines (overrideProps (overrideProps defaults yaml) (cliProps opts)))"
    by (simp add: GetProperties_def c m)
  with c d m show ?thesis by (rule that)
qed

lemma GetProperties_returns:
  "customPluginsDir w \<noteq> DirUnreadable \<Longrightarrow> \<exists>out. GetProperties L w opts yaml dn pl = Inr out"
proof -
  assume "customPluginsDir w \<noteq> DirUnreadable"
  then obtain cpp where c: "getCustomPluginPaths L w = Inr cpp"
    by (cases "customPluginsDir w") (simp_all add: getCustomPluginPaths_def)
  obtain defaults where d: "defaultProps L w opts dn pl = Inr defaults"
    using defaultProps_returns by blast
  show ?thesis
    by (simp add: GetProperties_def c mergedProps_def d)
qed

lemma sample_deviceIdSalt:
  "GetDeviceIdSalt sampleLib sampleWorld
     = Inr [''200820300000000-0000-0000-0000-000000000000'', ''00000000000000000000000000000000'']"
proof -
  have e: "env_SALT sampleWorld = ''''" "env_DEVICEID sampleWorld = ''''"
    by (simp_all add: sampleWorld_def)
  show ?thesis
    by (simp add: GetDeviceIdSalt_eq sample_url sample_md5 hex128_zero e)
qed

lemma sample_defaultProps:
  "defaultProps sampleLib sampleWorld sampleOpts sampleDotNet [] = Inr sampleDefaults"
proof -
  have q: "QuoteIfSpace ''/conf'' = ''/conf''" "QuoteIfSpace ''/log'' = ''/log''"
    "QuoteIfSpace ''id'' = ''id''" "QuoteIfSpace ''/cache/idea/241'' = ''/cache/idea/241''"
    "QuoteIfSpace ''/cache/plugins/241'' = ''/cache/plugins/241''"
    by (simp_all add: QuoteIfSpace_def)
  have o: "LogDirPath sampleOpts = ''/log''" "ConfDirPath sampleOpts = ''/conf''"
    "CacheDir sampleOpts = ''/cache''" "AnalysisId sampleOpts = ''id''"
    "CoverageDirPath sampleOpts = ''''"
    by (simp_all add: sampleOpts_def)
  have w: "parentPrefix sampleWorld = ''Rider''" "versionBranch sampleWorld = ''241''"
    "allowedToSendFUS sampleWorld = False" "IsContainer sampleWorld"
    by (simp_all add: sampleWorld_def IsContainer_def)
  have j: "Join sampleLib a b = a @ ''/'' @ b" for a b
    by (simp add: sampleLib_def)
  have d: "Project sampleDotNet = ''''" "Solution sampleDotNet = ''''"
    "Configuration sampleDotNet = ''''" "Platform sampleDotNet = ''''" "Frameworks sampleDotNet = ''''"
    by (simp_all add: sampleDotNet_def)
  show ?thesis
    by (simp add: defaultProps_def sample_deviceIdSalt getPropertiesMap_def run_Cons run_Nil
        q o w j d FormatBool_def sampleDefaults_def)
qed

lemma sample_GetProperties:
  "set (projr (GetProperties sampleLib sampleWorld (sampleOpts\<lparr>cliProps := c\<rparr>) yaml sampleDotNet []))
     = insert ''-Xlog:gc*:/log/gc.log''
         (set (propLines (overrideProps (overrideProps sampleDefaults yaml) c)))"
proof -
  have p: "getCustomPluginPaths sampleLib sampleWorld = Inr ''''"
    by (simp add: getCustomPluginPaths_def sampleWorld_def)
  have b: "baseLines sampleLib sampleWorld sampleOpts '''' = [''-Xlog:gc*:/log/gc.log'']"
    by (simp add: baseLines_def sampleOpts_def sampleWorld_def sampleLib_def QuoteIfSpace_def)
  have f: "flags (sampleOpts\<lparr>cliProps := c\<rparr>) = []"
    by (simp add: sampleOpts_def)
  show ?thesis
    by (simp add: GetProperties_def p b f mergedProps_def sample_defaultProps set_insort_key)
qed

lemma sampleOpts_cliProps: "sampleOpts\<lparr>cliProps := []\<rparr> = sampleOpts"
  by (simp add: sampleOpts_def)

text \<open>The output is a rearrangement of the lines and of one line per entry of the final map.\<close>

lemma GetProperties_composition:
  assumes "GetProperties L w opts yaml dn pl = Inr out"
  obtains cpp props where
    "getCustomPluginPaths L w = Inr cpp"
    "mergedProps L w opts yaml dn pl = Inr props"
    "mset out = mset (addFlags (baseLines L w opts cpp) (flags opts)) + mset (propLines props)"
proof -
  from assms obtain cpp defaults where
    "getCustomPluginPaths L w = Inr cpp"
    "mergedProps L w opts yaml dn pl = Inr (overrideProps (overrideProps defaults yaml) (cliProps opts))"
    "out = sort (addFlags (baseLines L w opts cpp) (flags opts)
                 @ propLines (overrideProps (overrideProps defaults yaml) (cliProps opts)))"
    by (rule GetProperties_cases)
  then show ?thesis
    by (intro that [of cpp "overrideProps (overrideProps defaults yaml) (cliProps opts)"]) simp_all
qed

text \<open>
  Claim C1 (as amended). The three layers merge with strict precedence per option key
  (a key without a leading \<open>-\<close> is first prefixed with \<open>-D\<close>), the last writer winning:
  the final map is the default layer overridden by \<open>qodana.yaml\<close> overridden by the
  command line, each layer read through \<open>layerMap\<close>, that is, with the last entry of
  the iteration deciding among the entries of one layer that name the same option. The
  output is exactly the base and flag lines together with one line \<open>K=v\<close> for each
  entry of the final map, and the final map holds one entry per key. So a key that the
  command line writes, last with \<open>v3\<close>, has the single entry \<open>K=v3\<close>, whatever the
  other layers say; a key that only \<open>qodana.yaml\<close> writes, last with \<open>v2\<close>, has the
  single entry \<open>K=v2\<close>; a key no layer overrides keeps its default. An entry
  \<open>(k, v)\<close> of a layer in which no two keys name the same option decides the option
  \<open>optionKey k\<close>, unless a later layer writes it.
\<close>

theorem GetProperties_layer_precedence:
  assumes "GetProperties L w opts yaml dn pl = Inr out"
  shows "\<exists>cpp defaults props.
           getCustomPluginPaths L w = Inr cpp \<and>
           defaultProps L w opts dn pl = Inr defaults \<and>
           mergedProps L w opts yaml dn pl = Inr props \<and>
           mset out = mset (addFlags (baseLines L w opts cpp) (flags opts)) + mset (propLines props) \<and>
           distinct (map fst props) \<and>
           map_of props = map_of defaults ++ layerMap yaml ++ layerMap (cliProps opts) \<and>
           (\<forall>K v. map_of props K = Some v \<longrightarrow>
                  filter (\<lambda>e. fst e = K) props = [(K, v)] \<and> K @ ''='' @ v \<in> set out) \<and>
           (\<forall>K v3. layerMap (cliProps opts) K = Some v3 \<longrightarrow> map_of props K = Some v3) \<and>
           (\<forall>K v2. layerMap (cliProps opts) K = None \<longrightarrow> layerMap yaml K = Some v2 \<longrightarrow>
                   map_of props K = Some v2) \<and>
           (\<forall>K. layerMap (cliProps opts) K = None \<longrightarrow> layerMap yaml K = None \<longrightarrow>
                map_of props K = map_of defaults K) \<and>
           (\<forall>k v3. (k, v3) \<in> set (cliProps opts) \<longrightarrow>
                   distinct (map (optionKey \<circ> fst) (cliProps opts)) \<longrightarrow>
                   map_of props (optionKey k) = Some v3) \<and>
           (\<forall>k v2. (k, v2) \<in> set yaml \<longrightarrow> distinct (map (optionKey \<circ> fst) yaml) \<longrightarrow>
                   layerMap (cliProps opts) (optionKey k) = None \<longrightarrow>
                   map_of props (optionKey k) = Some v2)"
proof -
  from assms obtain cpp defaults where
    c: "getCustomPluginPaths L w = Inr cpp" and
    d: "defaultProps L w opts dn pl = Inr defaults" "distinct (map fst defaults)" and
    m: "mergedProps L w opts yaml dn pl
          = Inr (overrideProps (overrideProps defaults yaml) (cliProps opts))" and
    out: "out = sort (addFlags (baseLines L w opts cpp) (flags opts)
                 @ propLines (overrideProps (overrideProps defaults yaml) (cliProps opts)))"
    by (rule GetProperties_cases)
  define props where "props = overrideProps (overrideProps defaults yaml) (cliProps opts)"
  have comp: "mset out = mset (addFlags (baseLines L w opts cpp) (flags opts)) + mset (propLines props)"
    by (simp add: out props_def)
  have mp: "map_of props = map_of defaults ++ layerMap yaml ++ layerMap (cliProps opts)"
    by (simp add: props_def overrideProps_map_of)
  have dist: "distinct (map fst props)"
    unfolding props_def by (intro overrideProps_distinct d(2))
  have lines: "set (propLines props) \<subseteq> set out"
    by (simp add: out props_def)
  have one: "filter (\<lambda>e. fst e = K) props = [(K, v)] \<and> K @ ''='' @ v \<in> set out"
    if "map_of props K = Some v" for K v
    using single_entry [OF dist that] propLines_member [OF that] lines by blast
  have cli: "map_of props K = Some v3" if "layerMap (cliProps opts) K = Some v3" for K v3
    using that by (simp add: mp map_add_def)
  have yml: "map_of props K = Some v2"
    if "layerMap (cliProps opts) K = None" "layerMap yaml K = Some v2" for K v2
    using that by (simp add: mp map_add_def)
  have dfl: "map_of props K = map_of defaults K"
    if "layerMap (cliProps opts) K = None" "layerMap yaml K = None" for K
    using that by (simp add: mp map_add_def)
  have cli_entry: "map_of props (optionKey k) = Some v3"
    if "(k, v3) \<in> set (cliProps opts)" "distinct (map (optionKey \<circ> fst) (cliProps opts))"
    for k v3
    using layerMap_entry [OF that] by (rule cli)
  have yml_entry: "map_of props (optionKey k) = Some v2"
    if "(k, v2) \<in> set yaml" "distinct (map (optionKey \<circ> fst) yaml)"
       "layerMap (cliProps opts) (optionKey k) = None"
    for k v2
    using that(3) layerMap_entry [OF that(1,2)] by (rule yml)
  have m': "mergedProps L w opts yaml dn pl = Inr props"
    by (simp add: m props_def)
  have all: "getCustomPluginPaths L w = Inr cpp \<and>
           defaultProps L w opts dn pl = Inr defaults \<and>
           mergedProps L w opts yaml dn pl = Inr props \<and>
           mset out = mset (addFlags (baseLines L w opts cpp) (flags opts)) + mset (propLines props) \<and>
           distinct (map fst props) \<and>
           map_of props = map_of defaults ++ layerMap yaml ++ layerMap (cliProps opts)"
    using c d(1) m' comp dist mp by simp
  from all one cli yml dfl cli_entry yml_entry show ?thesis
    by blast
qed

theorem GetProperties_layer_precedence_witness:
  "''-XX:MaxRAMPercentage=3'' \<in> set (projr (GetProperties sampleLib sampleWorld
       (sampleOpts\<lparr>cliProps := [(''-XX:MaxRAMPercentage'', ''3'')]\<rparr>)
       [(''-XX:MaxRAMPercentage'', ''2'')] sampleDotNet []))
   \<and> ''-XX:MaxRAMPercentage=2'' \<in> set (projr (GetProperties sampleLib sampleWorld sampleOpts
       [(''-XX:MaxRAMPercentage'', ''2'')] sampleDotNet []))"
proof -
  let ?K = "''-XX:MaxRAMPercentage''"
  let ?o3 = "sampleOpts\<lparr>cliProps := [(?K, ''3'')]\<rparr>"
  have ok: "customPluginsDir sampleWorld \<noteq> DirUnreadable"
    by (simp add: sampleWorld_def)
  have k: "optionKey ?K = ?K"
    by (simp add: optionKey_def)
  obtain out3 where o3: "GetProperties sampleLib sampleWorld ?o3 [(?K, ''2'')] sampleDotNet [] = Inr out3"
    using GetProperties_returns [OF ok] by blast
  have c3: "layerMap (cliProps ?o3) ?K = Some ''3''"
    by (simp add: layerMap_def k)
  from GetProperties_layer_precedence [OF o3] c3 have "?K @ ''='' @ ''3'' \<in> set out3"
    by blast
  with o3 have a: "''-XX:MaxRAMPercentage=3'' \<in> set (projr (GetProperties sampleLib sampleWorld
       ?o3 [(?K, ''2'')] sampleDotNet []))"
    by simp
  obtain out2 where o2: "GetProperties sampleLib sampleWorld sampleOpts [(?K, ''2'')] sampleDotNet [] = Inr out2"
    using GetProperties_returns [OF ok] by blast
  have c2: "layerMap (cliProps sampleOpts) ?K = None" "layerMap [(?K, ''2'')] ?K = Some ''2''"
    by (simp_all add: layerMap_def k sampleOpts_def)
  from GetProperties_layer_precedence [OF o2] c2 have "?K @ ''='' @ ''2'' \<in> set out2"
    by blast
  with o2 have b: "''-XX:MaxRAMPercentage=2'' \<in> set (projr (GetProperties sampleLib sampleWorld
       sampleOpts [(?K, ''2'')] sampleDotNet []))"
    by simp
  from a b show ?thesis by simp
qed

text \<open>
  The claim as stated fails where one layer holds two keys for the same option: the key
  \<open>-Didea.log.path\<close> is in the defaults (\<open>/log\<close>), in \<open>qodana.yaml\<close> (\<open>2\<close>) and on the
  command line (\<open>3\<close>), the command line also gives \<open>idea.log.path=9\<close>, and when the
  iteration over the command-line map yields that entry last the output holds
  \<open>-Didea.log.path=9\<close> and not \<open>-Didea.log.path=3\<close>.
\<close>

theorem layer_alias_counterexample:
  "map_of sampleDefaults ''-Didea.log.path'' = Some ''/log''
   \<and> ''-Didea.log.path=9'' \<in> set (projr (GetProperties sampleLib sampleWorld
       (sampleOpts\<lparr>cliProps := [(''-Didea.log.path'', ''3''), (''idea.log.path'', ''9'')]\<rparr>)
       [(''-Didea.log.path'', ''2'')] sampleDotNet []))
   \<and> ''-Didea.log.path=3'' \<notin> set (projr (GetProperties sampleLib sampleWorld
       (sampleOpts\<lparr>cliProps := [(''-Didea.log.path'', ''3''), (''idea.log.path'', ''9'')]\<rparr>)
       [(''-Didea.log.path'', ''2'')] sampleDotNet []))"
  by (simp add: sample_GetProperties sampleDefaults_def optionKey_def propLines_def
      netFrameworkDenylist_def)

text \<open>
  Claim C2 (as amended). The lines that \<open>GetProperties\<close> returns are sorted. They are
  the lines of the flag loop and one line per entry of the final map; in the flag loop a
  non-empty flag that is not yet a line becomes exactly one line however often it is
  given, and a line that is already there is kept as it is. The output does not depend on
  the order in which the maps are iterated provided no layer holds two keys that name the
  same option: two iteration orders of such layers, and more generally two runs whose
  layers agree as maps on option keys, return the same lines.
\<close>

theorem GetProperties_sorted_deterministic:
  assumes "GetProperties L w opts yaml dn pl = Inr out"
  shows "sorted out
     \<and> (\<exists>cpp props.
          getCustomPluginPaths L w = Inr cpp \<and>
          mergedProps L w opts yaml dn pl = Inr props \<and>
          (\<forall>f. count_list out f =
                 count_list (addFlags (baseLines L w opts cpp) (flags opts)) f
                 + count_list (propLines props) f) \<and>
          (\<forall>f. f \<in> set (flags opts) \<longrightarrow> f \<noteq> '''' \<longrightarrow> f \<notin> set (baseLines L w opts cpp) \<longrightarrow>
                 count_list (addFlags (baseLines L w opts cpp) (flags opts)) f = 1) \<and>
          (\<forall>f. f \<in> set (baseLines L w opts cpp) \<longrightarrow>
                 count_list (addFlags (baseLines L w opts cpp) (flags opts)) f
                   = count_list (baseLines L w opts cpp) f))
     \<and> (\<forall>yaml' cli'. layerMap yaml' = layerMap yaml \<longrightarrow> layerMap cli' = layerMap (cliProps opts) \<longrightarrow>
            GetProperties L w (opts\<lparr>cliProps := cli'\<rparr>) yaml' dn pl = Inr out)
     \<and> (\<forall>yaml' cli'. mset yaml' = mset yaml \<longrightarrow> mset cli' = mset (cliProps opts) \<longrightarrow>
            distinct (map (optionKey \<circ> fst) yaml) \<longrightarrow>
            distinct (map (optionKey \<circ> fst) (cliProps opts)) \<longrightarrow>
            GetProperties L w (opts\<lparr>cliProps := cli'\<rparr>) yaml' dn pl = Inr out)"
proof -
  from assms obtain cpp defaults where
    c: "getCustomPluginPaths L w = Inr cpp" and
    d: "defaultProps L w opts dn pl = Inr defaults" "distinct (map fst defaults)" and
    m: "mergedProps L w opts yaml dn pl
          = Inr (overrideProps (overrideProps defaults yaml) (cliProps opts))" and
    out: "out = sort (addFlags (baseLines L w opts cpp) (flags opts)
                 @ propLines (overrideProps (overrideProps defaults yaml) (cliProps opts)))"
    by (rule GetProperties_cases)
  let ?lines = "addFlags (baseLines L w opts cpp) (flags opts)"
  let ?p = "overrideProps (overrideProps defaults yaml) (cliProps opts)"
  have srt: "sorted out"
    by (simp add: out)
  have "mset out = mset ?lines + mset (propLines ?p)"
    by (simp add: out)
  then have "count (mset out) f = count (mset ?lines) f + count (mset (propLines ?p)) f" for f
    by simp
  then have cnt: "count_list out f = count_list ?lines f + count_list (propLines ?p) f" for f
    by (simp add: count_mset)
  have once: "count_list ?lines f = 1"
    if "f \<in> set (flags opts)" "f \<noteq> ''''" "f \<notin> set (baseLines L w opts cpp)" for f
    using that by (simp add: addFlags_count)
  have kept: "count_list ?lines f = count_list (baseLines L w opts cpp) f"
    if "f \<in> set (baseLines L w opts cpp)" for f
    using that by (simp add: addFlags_count)
  have flagpart: "\<exists>cpp props.
          getCustomPluginPaths L w = Inr cpp \<and>
          mergedProps L w opts yaml dn pl = Inr props \<and>
          (\<forall>f. count_list out f =
                 count_list (addFlags (baseLines L w opts cpp) (flags opts)) f
                 + count_list (propLines props) f) \<and>
          (\<forall>f. f \<in> set (flags opts) \<longrightarrow> f \<noteq> '''' \<longrightarrow> f \<notin> set (baseLines L w opts cpp) \<longrightarrow>
                 count_list (addFlags (baseLines L w opts cpp) (flags opts)) f = 1) \<and>
          (\<forall>f. f \<in> set (baseLines L w opts cpp) \<longrightarrow>
                 count_list (addFlags (baseLines L w opts cpp) (flags opts)) f
                   = count_list (baseLines L w opts cpp) f)"
    using c m cnt once kept by blast
  have det: "GetProperties L w (opts\<lparr>cliProps := cli'\<rparr>) yaml' dn pl = Inr out"
    if y: "layerMap yaml' = layerMap yaml" and l: "layerMap cli' = layerMap (cliProps opts)"
    for yaml' cli'
  proof -
    let ?p' = "overrideProps (overrideProps defaults yaml') cli'"
    have "map_of ?p' = map_of ?p"
      by (simp add: overrideProps_map_of y l)
    moreover have "distinct (map fst ?p)" "distinct (map fst ?p')"
      by (intro overrideProps_distinct d(2))+
    ultimately have "mset ?p' = mset ?p"
      by (intro same_map_same_entries)
    then have "mset (propLines ?p') = mset (propLines ?p)"
      by (simp add: propLines_def)
    then have "sort (addFlags (baseLines L w opts cpp) (flags opts) @ propLines ?p') = out"
      unfolding out by (intro sort_cong_mset) simp
    then show ?thesis
      by (simp add: GetProperties_def c mergedProps_def d)
  qed
  have reorder: "GetProperties L w (opts\<lparr>cliProps := cli'\<rparr>) yaml' dn pl = Inr out"
    if "mset yaml' = mset yaml" "mset cli' = mset (cliProps opts)"
       "distinct (map (optionKey \<circ> fst) yaml)" "distinct (map (optionKey \<circ> fst) (cliProps opts))"
    for yaml' cli'
    using that by (intro det layerMap_reorder)
  from srt flagpart det reorder show ?thesis
    by blast
qed

theorem GetProperties_sorted_deterministic_witness:
  "GetProperties sampleLib sampleWorld
     (sampleOpts\<lparr>flags := [''-Xa'', ''-Xa''], cliProps := [(''a'', ''1''), (''-Db'', ''2'')]\<rparr>)
     [(''c'', ''3''), (''d'', ''4'')] sampleDotNet []
   = GetProperties sampleLib sampleWorld
     (sampleOpts\<lparr>flags := [''-Xa'', ''-Xa''], cliProps := [(''-Db'', ''2''), (''a'', ''1'')]\<rparr>)
     [(''d'', ''4''), (''c'', ''3'')] sampleDotNet []
   \<and> sorted (projr (GetProperties sampleLib sampleWorld
     (sampleOpts\<lparr>flags := [''-Xa'', ''-Xa''], cliProps := [(''a'', ''1''), (''-Db'', ''2'')]\<rparr>)
     [(''c'', ''3''), (''d'', ''4'')] sampleDotNet []))
   \<and> count_list (addFlags [''-Xlog:gc*:/log/gc.log''] [''-Xa'', ''-Xa'']) ''-Xa'' = 1"
proof -
  let ?o = "sampleOpts\<lparr>flags := [''-Xa'', ''-Xa''], cliProps := [(''a'', ''1''), (''-Db'', ''2'')]\<rparr>"
  let ?y = "[(''c'', ''3''), (''d'', ''4'')]"
  have ok: "customPluginsDir sampleWorld \<noteq> DirUnreadable"
    by (simp add: sampleWorld_def)
  obtain out where o: "GetProperties sampleLib sampleWorld ?o ?y sampleDotNet [] = Inr out"
    using GetProperties_returns [OF ok] by blast
  note th = GetProperties_sorted_deterministic [OF o]
  have dy: "distinct (map (optionKey \<circ> fst) ?y)"
    and dc: "distinct (map (optionKey \<circ> fst) (cliProps ?o))"
    by (simp_all add: optionKey_def)
  have my: "mset [(''d'', ''4''), (''c'', ''3'')] = mset ?y"
    and mc: "mset [(''-Db'', ''2''), (''a'', ''1'')] = mset (cliProps ?o)"
    by simp_all
  from th my mc dy dc
  have "GetProperties sampleLib sampleWorld (?o\<lparr>cliProps := [(''-Db'', ''2''), (''a'', ''1'')]\<rparr>)
          [(''d'', ''4''), (''c'', ''3'')] sampleDotNet [] = Inr out"
    by blast
  then have a: "GetProperties sampleLib sampleWorld ?o ?y sampleDotNet []
      = GetProperties sampleLib sampleWorld
          (sampleOpts\<lparr>flags := [''-Xa'', ''-Xa''], cliProps := [(''-Db'', ''2''), (''a'', ''1'')]\<rparr>)
          [(''d'', ''4''), (''c'', ''3'')] sampleDotNet []"
    by (simp add: o)
  from th have b: "sorted (projr (GetProperties sampleLib sampleWorld ?o ?y sampleDotNet []))"
    by (simp add: o)
  have p: "getCustomPluginPaths sampleLib sampleWorld = Inr ''''"
    by (simp add: getCustomPluginPaths_def sampleWorld_def)
  have bl: "baseLines sampleLib sampleWorld ?o '''' = [''-Xlog:gc*:/log/gc.log'']"
    by (simp add: baseLines_def sampleOpts_def sampleWorld_def sampleLib_def QuoteIfSpace_def)
  have fl: "flags ?o = [''-Xa'', ''-Xa'']"
    by simp
  from th obtain cpp where
    "getCustomPluginPaths sampleLib sampleWorld = Inr cpp" and
    f: "\<forall>f. f \<in> set (flags ?o) \<longrightarrow> f \<noteq> '''' \<longrightarrow> f \<notin> set (baseLines sampleLib sampleWorld ?o cpp) \<longrightarrow>
          count_list (addFlags (baseLines sampleLib sampleWorld ?o cpp) (flags ?o)) f = 1"
    by blast
  with p have cpp: "cpp = ''''" by simp
  from f [rule_format, of "''-Xa''"]
  have "count_list (addFlags [''-Xlog:gc*:/log/gc.log''] [''-Xa'', ''-Xa'']) ''-Xa'' = 1"
    unfolding cpp bl fl by simp
  with a b show ?thesis by blast
qed

text \<open>
  The claim as stated fails where a layer holds two keys for the same option: the
  \<open>qodana.yaml\<close> map with the keys \<open>a\<close> and \<open>-Da\<close> gives the line \<open>-Da=2\<close> when
  \<open>-Da\<close> is iterated last and not when \<open>a\<close> is, so two resolutions of one input differ.
\<close>

theorem iteration_order_counterexample:
  "mset [(''a'', ''1''), (''-Da'', ''2'')] = mset [(''-Da'', ''2''), (''a'', ''1'')]
   \<and> ''-Da=2'' \<in> set (projr (GetProperties sampleLib sampleWorld sampleOpts
         [(''a'', ''1''), (''-Da'', ''2'')] sampleDotNet []))
   \<and> ''-Da=2'' \<notin> set (projr (GetProperties sampleLib sampleWorld sampleOpts
         [(''-Da'', ''2''), (''a'', ''1'')] sampleDotNet []))
   \<and> GetProperties sampleLib sampleWorld sampleOpts [(''a'', ''1''), (''-Da'', ''2'')] sampleDotNet []
       \<noteq> GetProperties sampleLib sampleWorld sampleOpts [(''-Da'', ''2''), (''a'', ''1'')] sampleDotNet []"
proof -
  have m: "mset [(''a'', ''1''), (''-Da'', ''2'')] = mset [(''-Da'', ''2''), (''a'', ''1'')]"
    by simp
  have a: "''-Da=2'' \<in> set (projr (GetProperties sampleLib sampleWorld sampleOpts
         [(''a'', ''1''), (''-Da'', ''2'')] sampleDotNet []))"
    using sample_GetProperties [of "[]"]
    by (simp add: sampleOpts_cliProps sampleDefaults_def optionKey_def propLines_def
        netFrameworkDenylist_def)
  have b: "''-Da=2'' \<notin> set (projr (GetProperties sampleLib sampleWorld sampleOpts
         [(''-Da'', ''2''), (''a'', ''1'')] sampleDotNet []))"
    using sample_GetProperties [of "[]"]
    by (simp add: sampleOpts_cliProps sampleDefaults_def optionKey_def propLines_def
        netFrameworkDenylist_def)
  from a b have "GetProperties sampleLib sampleWorld sampleOpts [(''a'', ''1''), (''-Da'', ''2'')] sampleDotNet []
       \<noteq> GetProperties sampleLib sampleWorld sampleOpts [(''-Da'', ''2''), (''a'', ''1'')] sampleDotNet []"
    by metis
  with m a b show ?thesis by blast
qed

section \<open>The walk\<close>

text \<open>What the callback returns, case by case.\<close>

lemma visit_error: "visit L pp path fo (Some e) out = (out, Some SkipDir)"
  by (simp add: visit_def)

lemma visit_dir: "visit L pp path (Some dirInfo) None out = (out, None)"
  by (simp add: visit_def dirInfo_def IsDir_def IsRegular_def)

lemma fileInfo_not_dir: "\<not> IsDir (Mode (fileInfo regular f))"
  by (simp add: fileInfo_def IsDir_def)

text \<open>The callback on a file, with the dead directory branches removed.\<close>

lemma visit_file:
  "visit L pp path (Some (fileInfo regular f)) None out =
     (case Rel L pp path of
        None \<Rightarrow> (out, None)
      | Some rel \<Rightarrow>
          if rel = ''.'' \<or> isInIgnoredDirectory path \<or> IsVendor L rel \<or> IsDotFile L rel \<or>
             IsDocumentation L rel \<or> IsConfiguration L rel \<or> IsGenerated L rel [] \<or>
             snd (readFile f limitKb) \<noteq> None \<or> IsGenerated L rel (fst (readFile f limitKb))
          then (out, None)
          else
            (let language = GetLanguage L (Base L path) (fst (readFile f limitKb)) in
             if language = OtherLanguage \<or> GetLanguageType L language \<noteq> Programming
             then (out, None)
             else (increment out language, None)))"
proof (cases "Rel L pp path")
  case None
  then show ?thesis
    by (simp add: visit_def fileInfo_not_dir)
next
  case (Some rel)
  obtain content err where r: "readFile f limitKb = (content, err)"
    by (cases "readFile f limitKb")
  have st: "stored (fileInfo regular f) = f"
    by (simp add: fileInfo_def)
  show ?thesis
    unfolding visit_def
    by (cases err) (simp_all add: Some fileInfo_not_dir st r Let_def)
qed

lemma visit_file_result: "snd (visit L pp path (Some (fileInfo regular f)) None out) = None"
  by (simp add: visit_file Let_def split: option.splits)

lemma visit_file_unreadable:
  "snd (readFile f limitKb) \<noteq> None \<Longrightarrow>
   visit L pp path (Some (fileInfo regular f)) None out = (out, None)"
  by (simp add: visit_file split: option.splits)

text \<open>The walk with this callback never returns an error other than \<open>SkipDir\<close>.\<close>

lemma walk_visit_result:
  "fn = visit L pp \<Longrightarrow>
   snd (walk L fn path e s) = (if isBroken e \<or> e = BadDir (ename e) then Some SkipDir else None)"
  "fn = visit L pp \<Longrightarrow> snd (walkNames L fn path es s) = None"
proof (induction L fn path e s and L fn path es s rule: walk_walkNames.induct)
  case (1 L fn path n regular f s)
  then show ?case by (simp add: visit_file_result)
next
  case (2 L fn path n s)
  then show ?case by (simp add: visit_error)
next
  case (3 L fn path n s)
  then show ?case by (simp add: visit_error)
next
  case (4 L fn path n es s)
  then show ?case by (simp add: visit_dir)
next
  case (5 L fn path s)
  then show ?case by simp
next
  case (6 L fn path e es s)
  show ?case
  proof (cases "isBroken e")
    case True
    with 6 show ?thesis by (simp add: visit_error)
  next
    case False
    obtain s' r where w: "walk L fn (Join L path (ename e)) e s = (s', r)"
      by (cases "walk L fn (Join L path (ename e)) e s")
    from 6(2) [OF False 6(4)] w False
    have r: "r = (if e = BadDir (ename e) then Some SkipDir else None)"
      by simp
    have go: "\<not> (r \<noteq> None \<and> (\<not> isDirEntry e \<or> r \<noteq> Some SkipDir))"
    proof (cases "e = BadDir (ename e)")
      case True
      then have "isDirEntry e" by (metis isDirEntry.simps(2))
      with r True show ?thesis by simp
    next
      case False
      with r show ?thesis by simp
    qed
    from 6(3) [OF False w [symmetric] go 6(4)]
    have "snd (walkNames L fn path es s') = None" .
    with False w go show ?thesis by auto
  qed
qed

lemma Walk_visit_result: "snd (Walk L (visit L pp) root tree s) = None"
proof -
  obtain s' r where w: "walk L (visit L pp) root tree s = (s', r)"
    by (cases "walk L (visit L pp) root tree s")
  with walk_visit_result(1) [OF refl, of L pp root tree s]
  have "r = None \<or> r = Some SkipDir"
    by (simp split: if_splits)
  with w show ?thesis
    by (auto simp: Walk_def)
qed

text \<open>An entry on which the walk changes nothing can be left out of its directory.\<close>

lemma walkNames_skip:
  assumes "\<not> isBroken e"
    and "\<And>s. walk L fn (Join L dir (ename e)) e s = (s, r)"
    and "r = None \<or> (isDirEntry e \<and> r = Some SkipDir)"
  shows "walkNames L fn dir (pre @ e # post) s = walkNames L fn dir (pre @ post) s"
proof (induction pre arbitrary: s)
  case Nil
  from assms show ?case by auto
next
  case (Cons x pre)
  show ?case
  proof (cases "isBroken x")
    case True
    then show ?thesis
      by (simp add: Cons.IH split: prod.splits)
  next
    case False
    then show ?thesis
      by (simp add: Cons.IH split: prod.splits)
  qed
qed

lemma walkNames_skip_broken:
  assumes "isBroken e"
    and "\<And>s. fn (Join L dir (ename e)) None (Some LstatError) s = (s, Some SkipDir)"
  shows "walkNames L fn dir (pre @ e # post) s = walkNames L fn dir (pre @ post) s"
proof (induction pre arbitrary: s)
  case Nil
  from assms show ?case by auto
next
  case (Cons x pre)
  show ?case
    by (cases "isBroken x") (simp_all add: Cons.IH split: prod.splits)
qed

lemma walkNames_skip_unreadable:
  assumes "unreadable e"
  shows "walkNames L (visit L pp) dir (pre @ e # post) s
           = walkNames L (visit L pp) dir (pre @ post) s"
proof (cases e)
  case (File n regular f)
  with assms have "snd (readFile f limitKb) \<noteq> None" by simp
  then have "\<And>s. walk L (visit L pp) (Join L dir (ename e)) e s = (s, None)"
    by (simp add: File visit_file_unreadable)
  then show ?thesis
    by (intro walkNames_skip [where r = None]) (simp_all add: File)
next
  case (Dir n es)
  with assms show ?thesis by simp
next
  case (BadDir n)
  have "\<And>s. walk L (visit L pp) (Join L dir (ename e)) e s = (s, Some SkipDir)"
    by (simp add: BadDir visit_error)
  then show ?thesis
    by (intro walkNames_skip [where r = "Some SkipDir"]) (simp_all add: BadDir)
next
  case (Broken n)
  show ?thesis
    by (intro walkNames_skip_broken) (simp_all add: Broken visit_error)
qed

text \<open>
  Claim C3 (as amended). The scan never fails: whatever the tree, the walk ends without
  an error and \<open>recognizeDirLanguages\<close> returns a list. A root whose \<open>lstat\<close> fails or
  whose names cannot be read gives the empty counter map (and, the iteration over an
  empty map being empty, the empty list) with no error. An unreadable entry inside a
  directory is skipped: the walk of the directory is the same as without that entry.
\<close>

theorem recognizeDirLanguages_never_fails:
  "snd (scanCounts L pp tree) = None
   \<and> (\<exists>langs. recognizeDirLanguages L iter pp tree = Inr langs)
   \<and> scanCounts L pp (Broken n) = ([], None)
   \<and> scanCounts L pp (BadDir n) = ([], None)
   \<and> (iter [] = [] \<longrightarrow>
        recognizeDirLanguages L iter pp (Broken n) = Inr [] \<and>
        recognizeDirLanguages L iter pp (BadDir n) = Inr [])
   \<and> (unreadable e \<longrightarrow>
        walkNames L (visit L pp) dir (pre @ e # post) s
          = walkNames L (visit L pp) dir (pre @ post) s)"
proof -
  have ok: "snd (scanCounts L pp tree) = None"
    by (simp add: scanCounts_def Walk_visit_result)
  then have ret: "\<exists>langs. recognizeDirLanguages L iter pp tree = Inr langs"
    by (cases "scanCounts L pp tree") (simp add: recognizeDirLanguages_def)
  have broken: "scanCounts L pp (Broken n) = ([], None)"
    by (simp add: scanCounts_def Walk_def visit_error)
  have baddir: "scanCounts L pp (BadDir n) = ([], None)"
    by (simp add: scanCounts_def Walk_def visit_error)
  have empty: "rankLanguages [] = []"
    by (simp add: rankLanguages_def sortSlice_def)
  have root: "iter [] = [] \<longrightarrow>
        recognizeDirLanguages L iter pp (Broken n) = Inr [] \<and>
        recognizeDirLanguages L iter pp (BadDir n) = Inr []"
    by (simp add: recognizeDirLanguages_def broken baddir empty)
  have skip: "unreadable e \<longrightarrow>
        walkNames L (visit L pp) dir (pre @ e # post) s
          = walkNames L (visit L pp) dir (pre @ post) s"
    by (simp add: walkNames_skip_unreadable)
  from ok ret broken baddir root skip show ?thesis
    by blast
qed

theorem recognizeDirLanguages_never_fails_witness:
  "recognizeDirLanguages sampleLib id ''/p'' (BadDir ''p'') = Inr []
   \<and> walkNames sampleLib (visit sampleLib ''/p'') ''/p''
        ([File ''a.go'' True (plainFile [0])] @ Broken ''x'' # [File ''b.py'' True (plainFile [0])]) []
     = walkNames sampleLib (visit sampleLib ''/p'') ''/p''
        ([File ''a.go'' True (plainFile [0])] @ [File ''b.py'' True (plainFile [0])]) []"
proof -
  have i: "id ([] :: counts) = []" by simp
  have u: "unreadable (Broken ''x'')" by simp
  from recognizeDirLanguages_never_fails
    [where L = sampleLib and pp = "''/p''" and iter = id and n = "''p''" and e = "Broken ''x''"
       and dir = "''/p''" and pre = "[File ''a.go'' True (plainFile [0])]"
       and post = "[File ''b.py'' True (plainFile [0])]" and s = "[]"]
    i u
  show ?thesis by blast
qed

text \<open>
  The claim as stated fails at an unreadable root: the scan returns the empty list and no
  error, both when \<open>lstat\<close> of the root fails and when its names cannot be read.
\<close>

theorem unreadable_root_counterexample:
  "recognizeDirLanguages sampleLib id ''/p'' (Broken ''p'') = Inr []
   \<and> recognizeDirLanguages sampleLib id ''/p'' (BadDir ''p'') = Inr []"
  by (simp add: recognizeDirLanguages_def scanCounts_def Walk_def visit_def
      rankLanguages_def sortSlice_def)

section \<open>The ranking\<close>

text \<open>The counter map keeps one entry per language.\<close>

lemma increment_distinct: "distinct (map fst out) \<Longrightarrow> distinct (map fst (increment out l))"
  by (simp add: increment_def distinct_update)

lemma visit_state:
  "fst (visit L pp path fo err out) = out \<or>
   (\<exists>l. fst (visit L pp path fo err out) = increment out l)"
  by (simp add: visit_def Let_def split: option.splits prod.splits) blast

lemma visit_distinct:
  assumes "distinct (map fst out)"
  shows "distinct (map fst (fst (visit L pp path fo err out)))"
  using visit_state [of L pp path fo err out] assms
  by (auto simp: increment_distinct)

lemma walk_invariant:
  "(\<And>p fo err s. P s \<Longrightarrow> P (fst (fn p fo err s))) \<Longrightarrow> P s \<Longrightarrow>
   P (fst (walk L fn path e s))"
  "(\<And>p fo err s. P s \<Longrightarrow> P (fst (fn p fo err s))) \<Longrightarrow> P s \<Longrightarrow>
   P (fst (walkNames L fn path es s))"
proof (induction L fn path e s and L fn path es s rule: walk_walkNames.induct)
  case (1 L fn path n regular f s)
  then show ?case by simp
next
  case (2 L fn path n s)
  then show ?case by simp
next
  case (3 L fn path n s)
  then show ?case by simp
next
  case (4 L fn path n es s)
  obtain s' r where f: "fn path (Some dirInfo) None s = (s', r)"
    by (cases "fn path (Some dirInfo) None s")
  from 4(2) [OF 4(3), of path "Some dirInfo" None] f have s': "P s'" by simp
  show ?case
  proof (cases r)
    case None
    from 4(1) [OF f [symmetric] None 4(2) s'] f None show ?thesis by simp
  next
    case (Some e)
    with f s' show ?thesis by simp
  qed
next
  case (5 L fn path s)
  then show ?case by simp
next
  case (6 L fn path e es s)
  show ?case
  proof (cases "isBroken e")
    case True
    obtain s' r where f: "fn (Join L path (ename e)) None (Some LstatError) s = (s', r)"
      by (cases "fn (Join L path (ename e)) None (Some LstatError) s")
    from 6(4) [OF 6(5), of "Join L path (ename e)" None "Some LstatError"] f have s': "P s'"
      by simp
    show ?thesis
    proof (cases "r \<noteq> None \<and> r \<noteq> Some SkipDir")
      case stop: True
      with True f s' show ?thesis by simp
    next
      case go: False
      from 6(1) [OF True f [symmetric] go 6(4) s'] True f go show ?thesis by auto
    qed
  next
    case False
    obtain s' r where w: "walk L fn (Join L path (ename e)) e s = (s', r)"
      by (cases "walk L fn (Join L path (ename e)) e s")
    from 6(2) [OF False 6(4) 6(5)] w have s': "P s'" by simp
    show ?thesis
    proof (cases "r \<noteq> None \<and> (\<not> isDirEntry e \<or> r \<noteq> Some SkipDir)")
      case stop: True
      with False w s' show ?thesis by simp
    next
      case go: False
      from 6(3) [OF False w [symmetric] go 6(4) s'] False w go show ?thesis by auto
    qed
  qed
qed

lemma scanCounts_distinct: "distinct (map fst (fst (scanCounts L pp tree)))"
proof -
  have "distinct (map fst (fst (walk L (visit L pp) pp tree [])))"
    by (rule walk_invariant(1) [where P = "\<lambda>s. distinct (map fst s)"])
       (simp_all add: visit_distinct)
  then show ?thesis
    by (auto simp: scanCounts_def Walk_def split: prod.splits)
qed

text \<open>\<open>sortSlice\<close> by decreasing count: a rearrangement, in decreasing order.\<close>

lemma insertLeft_mset: "mset (insertLeft lt x ys) = add_mset x (mset ys)"
  by (induction ys) auto

lemma sortSlice_mset: "mset (sortSlice lt xs) = mset xs"
proof -
  have "mset (foldl (\<lambda>acc x. insertLeft lt x acc) acc xs) = mset acc + mset xs" for acc
    by (induction xs arbitrary: acc) (simp_all add: insertLeft_mset)
  then show ?thesis
    by (simp add: sortSlice_def)
qed

lemma insertLeft_sorted:
  "sorted (map snd ys) \<Longrightarrow>
   sorted (map snd (insertLeft (\<lambda>a b. snd a > snd b) (x :: 'a \<times> int) ys))"
proof (induction ys)
  case Nil
  show ?case by simp
next
  case (Cons y ys)
  have "set (insertLeft (\<lambda>a b. snd a > snd b) x ys) = insert x (set ys)"
    by (metis insertLeft_mset set_mset_add_mset_insert set_mset_mset)
  with Cons show ?case
    by auto
qed

lemma sortSlice_decreasing:
  "sorted_wrt (\<lambda>a b. snd a \<ge> snd b) (sortSlice (\<lambda>a b. snd a > snd b) (xs :: ('a \<times> int) list))"
proof -
  let ?lt = "\<lambda>a b :: 'a \<times> int. snd a > snd b"
  have "sorted (map snd (foldl (\<lambda>acc x. insertLeft ?lt x acc) acc xs))"
    if "sorted (map snd acc)" for acc
    using that by (induction xs arbitrary: acc) (simp_all add: insertLeft_sorted)
  then have "sorted (map snd (foldl (\<lambda>acc x. insertLeft ?lt x acc) [] xs))"
    by simp
  then have "sorted_wrt (\<lambda>a b. snd a \<le> snd b) (foldl (\<lambda>acc x. insertLeft ?lt x acc) [] xs)"
    by (simp add: sorted_wrt_map)
  then have "sorted_wrt (\<lambda>a b. snd b \<le> snd a) (rev (foldl (\<lambda>acc x. insertLeft ?lt x acc) [] xs))"
    by (simp add: sorted_wrt_rev)
  then show ?thesis
    by (simp add: sortSlice_def)
qed

text \<open>With pairwise different counts there is one decreasing order.\<close>

lemma decreasing_unique:
  fixes xs ys :: "('a \<times> int) list"
  assumes "mset xs = mset ys" and "distinct (map snd xs)"
    and "sorted_wrt (\<lambda>a b. snd a \<ge> snd b) xs" and "sorted_wrt (\<lambda>a b. snd a \<ge> snd b) ys"
  shows "xs = ys"
proof -
  have sx: "sorted (rev (map snd xs))" and sy: "sorted (rev (map snd ys))"
    using assms(3,4) by (simp_all add: sorted_wrt_rev sorted_wrt_map rev_map [symmetric])
  have "mset (rev (map snd xs)) = mset (rev (map snd ys))"
    using assms(1) by (metis mset_map mset_rev)
  then have "rev (map snd xs) = rev (map snd ys)"
    using sx sy by (metis properties_for_sort)
  then have m: "map snd xs = map snd ys"
    by simp
  from assms(2) have "inj_on snd (set xs)"
    by (simp add: distinct_map)
  moreover from assms(1) have "set ys = set xs"
    by (metis mset_eq_setD)
  ultimately have "inj_on snd (set xs \<union> set ys)"
    by simp
  with m show ?thesis
    by (simp add: inj_on_map_eq_map)
qed

lemma rankLanguages_properties:
  assumes d: "distinct (map fst out)" and p: "mset order = mset out"
  shows "mset (rankLanguages order) = mset (map fst out)"
    and "distinct (rankLanguages order)"
    and "sorted_wrt (\<lambda>a b. lookupCount out a \<ge> lookupCount out b) (rankLanguages order)"
proof -
  let ?cs = "sortSlice (\<lambda>a b. snd a > snd b) order"
  have m: "mset ?cs = mset out"
    by (simp add: sortSlice_mset p)
  then have "mset (map fst ?cs) = mset (map fst out)"
    by (metis mset_map)
  then show ms: "mset (rankLanguages order) = mset (map fst out)"
    by (simp add: rankLanguages_def)
  from d show "distinct (rankLanguages order)"
    using mset_eq_imp_distinct_iff [OF ms] by simp
  have cnt: "lookupCount out (fst x) = snd x" if "x \<in> set ?cs" for x
  proof -
    from that m have "x \<in> set out" by (metis mset_eq_setD)
    with d have "map_of out (fst x) = Some (snd x)" by simp
    then show ?thesis by (simp add: lookupCount_def)
  qed
  have "sorted_wrt (\<lambda>a b. snd a \<ge> snd b) ?cs"
    by (rule sortSlice_decreasing)
  then have "sorted_wrt (\<lambda>x y. lookupCount out (fst x) \<ge> lookupCount out (fst y)) ?cs"
    by (rule sorted_wrt_mono_rel [rotated]) (simp add: cnt)
  then show "sorted_wrt (\<lambda>a b. lookupCount out a \<ge> lookupCount out b) (rankLanguages order)"
    by (simp add: rankLanguages_def sorted_wrt_map)
qed

lemma rankLanguages_unique:
  assumes "mset order1 = mset out" and "mset order2 = mset out" and "distinct (map snd out)"
  shows "rankLanguages order1 = rankLanguages order2"
proof -
  let ?lt = "\<lambda>a b :: string \<times> int. snd a > snd b"
  have "mset (sortSlice ?lt order1) = mset (sortSlice ?lt order2)"
    by (simp add: sortSlice_mset assms)
  moreover have "mset (map snd (sortSlice ?lt order1)) = mset (map snd out)"
    by (metis mset_map sortSlice_mset assms(1))
  with assms(3) have "distinct (map snd (sortSlice ?lt order1))"
    by (metis mset_eq_imp_distinct_iff)
  ultimately have "sortSlice ?lt order1 = sortSlice ?lt order2"
    by (intro decreasing_unique sortSlice_decreasing)
  then show ?thesis
    by (simp add: rankLanguages_def)
qed

lemma recognizeDirLanguages_eq:
  "recognizeDirLanguages L iter pp tree = Inr (rankLanguages (iter (fst (scanCounts L pp tree))))"
proof -
  have "snd (scanCounts L pp tree) = None"
    by (simp add: scanCounts_def Walk_visit_result)
  then show ?thesis
    by (cases "scanCounts L pp tree") (simp add: recognizeDirLanguages_def)
qed

text \<open>
  Claim C4 (as amended). The ranking is determined by the tree up to the order of
  languages with equal counts: whatever order the iteration over the counter map takes
  in a run, the result holds each counted language once, in decreasing order of count;
  two runs return the same languages, and the same list when no two languages have the
  same count.
\<close>

theorem ranking_determined_up_to_ties:
  assumes "mset (iter1 (fst (scanCounts L pp tree))) = mset (fst (scanCounts L pp tree))"
    and "mset (iter2 (fst (scanCounts L pp tree))) = mset (fst (scanCounts L pp tree))"
  shows "\<exists>l1 l2.
           recognizeDirLanguages L iter1 pp tree = Inr l1 \<and>
           recognizeDirLanguages L iter2 pp tree = Inr l2 \<and>
           mset l1 = mset l2 \<and> distinct l1 \<and> distinct l2 \<and>
           set l1 = fst ` set (fst (scanCounts L pp tree)) \<and>
           sorted_wrt (\<lambda>a b. lookupCount (fst (scanCounts L pp tree)) a
                              \<ge> lookupCount (fst (scanCounts L pp tree)) b) l1 \<and>
           sorted_wrt (\<lambda>a b. lookupCount (fst (scanCounts L pp tree)) a
                              \<ge> lookupCount (fst (scanCounts L pp tree)) b) l2 \<and>
           (distinct (map snd (fst (scanCounts L pp tree))) \<longrightarrow> l1 = l2)"
proof -
  let ?out = "fst (scanCounts L pp tree)"
  let ?l1 = "rankLanguages (iter1 ?out)" and ?l2 = "rankLanguages (iter2 ?out)"
  have d: "distinct (map fst ?out)"
    by (rule scanCounts_distinct)
  note r1 = rankLanguages_properties [OF d assms(1)]
  note r2 = rankLanguages_properties [OF d assms(2)]
  have "mset ?l1 = mset ?l2"
    by (simp add: r1(1) r2(1))
  moreover have "set ?l1 = fst ` set ?out"
    using r1(1) by (metis mset_eq_setD set_map)
  moreover have "distinct (map snd ?out) \<longrightarrow> ?l1 = ?l2"
    using rankLanguages_unique [OF assms] by blast
  ultimately show ?thesis
    using r1(2,3) r2(2,3) recognizeDirLanguages_eq [of L iter1 pp tree]
      recognizeDirLanguages_eq [of L iter2 pp tree]
    by blast
qed

theorem ranking_determined_up_to_ties_witness:
  "recognizeDirLanguages sampleLib id ''/p''
     (Dir ''p'' [File ''a.py'' True (plainFile [0]), File ''b.go'' True (plainFile [0]),
                 File ''c.go'' True (plainFile [0])])
   = recognizeDirLanguages sampleLib rev ''/p''
     (Dir ''p'' [File ''a.py'' True (plainFile [0]), File ''b.go'' True (plainFile [0]),
                 File ''c.go'' True (plainFile [0])])"
proof -
  let ?t = "Dir ''p'' [File ''a.py'' True (plainFile [0]), File ''b.go'' True (plainFile [0]),
                 File ''c.go'' True (plainFile [0])]"
  have out: "fst (scanCounts sampleLib ''/p'' ?t) = [(''Python'', 1), (''Go'', 2)]"
    by code_simp
  have d: "distinct (map snd (fst (scanCounts sampleLib ''/p'' ?t)))"
    unfolding out by simp
  have i: "mset (id (fst (scanCounts sampleLib ''/p'' ?t))) = mset (fst (scanCounts sampleLib ''/p'' ?t))"
    and r: "mset (rev (fst (scanCounts sampleLib ''/p'' ?t))) = mset (fst (scanCounts sampleLib ''/p'' ?t))"
    by simp_all
  from ranking_determined_up_to_ties
    [where ?iter1.0 = id and ?iter2.0 = rev and L = sampleLib and pp = "''/p''" and tree = ?t,
     OF i r] d
  show ?thesis
    by auto
qed

text \<open>
  The claim as stated fails on a tie: for a tree with one Go file and one Python file,
  two iteration orders of the same counter map give two different rankings.
\<close>

theorem ranking_tie_counterexample:
  "recognizeDirLanguages sampleLib id ''/p''
     (Dir ''p'' [File ''a.go'' True (plainFile [0]), File ''b.py'' True (plainFile [0])])
     = Inr [''Go'', ''Python'']
   \<and> recognizeDirLanguages sampleLib rev ''/p''
     (Dir ''p'' [File ''a.go'' True (plainFile [0]), File ''b.py'' True (plainFile [0])])
     = Inr [''Python'', ''Go'']"
  by code_simp

section \<open>Generated files and the content sample\<close>

text \<open>The sample of a readable file is its first 64 bytes.\<close>

lemma readFile_plainFile: "readFile (plainFile bs) limitKb = (take 64 bs, None)"
  by (simp add: readFile_def limitKb_def copyLimited_def plainFile_def)

lemma markerLib_fields:
  "Rel markerLib ''/p'' (Join markerLib ''/p'' n) = Some n"
  "Base markerLib (Join markerLib ''/p'' ''late.go'') = ''late.go''"
  "Base markerLib (Join markerLib ''/p'' ''early.go'') = ''early.go''"
  "IsVendor markerLib ''late.go'' = False" "IsVendor markerLib ''early.go'' = False"
  "IsDotFile markerLib ''late.go'' = False" "IsDotFile markerLib ''early.go'' = False"
  "IsDocumentation markerLib p = False" "IsConfiguration markerLib p = False"
  "IsGenerated markerLib p content = (1 \<in> set content)"
  "GetLanguage markerLib ''late.go'' content = ''Go''"
  "GetLanguageType markerLib ''Go'' = Programming"
  "isInIgnoredDirectory (Join markerLib ''/p'' ''late.go'') = False"
  "isInIgnoredDirectory (Join markerLib ''/p'' ''early.go'') = False"
  by (simp_all add: markerLib_def sampleLib_def startsWith_def endsWith_def PathSeparator_def
      isInIgnoredDirectory_def ignoredDirectories_def)

text \<open>
  Claim C6. A file classified as generated must not increment a counter. The scan does
  not keep this for a file whose generator marker lies beyond the sample: the constant
  \<open>limitKb = 64\<close> reaches \<open>readFile\<close> as a count of bytes, so the generated test sees
  the first 64 bytes only. Here the file \<open>late.go\<close> carries the marker at byte 71: the
  test classifies it as generated on its first 64 KiB, and the scan counts it as Go. The
  sibling \<open>early.go\<close>, with the marker in its first byte, is not counted.
\<close>

theorem generated_after_sample_is_counted:
  "IsGenerated markerLib ''late.go'' (take 65536 (replicate 70 0 @ [1]))
   \<and> recognizeDirLanguages markerLib id ''/p''
       (Dir ''p'' [File ''late.go'' True (plainFile (replicate 70 0 @ [1]))]) = Inr [''Go'']
   \<and> recognizeDirLanguages markerLib id ''/p''
       (Dir ''p'' [File ''early.go'' True (plainFile (1 # replicate 70 0))]) = Inr []"
proof -
  have g: "IsGenerated markerLib ''late.go'' (take 65536 (replicate 70 0 @ [1]))"
    by (simp add: markerLib_fields)
  have late: "scanCounts markerLib ''/p''
       (Dir ''p'' [File ''late.go'' True (plainFile (replicate 70 0 @ [1]))]) = ([(''Go'', 1)], None)"
    by (simp add: scanCounts_def Walk_def visit_dir visit_file readFile_plainFile markerLib_fields
        OtherLanguage_def increment_def lookupCount_def)
  have early: "scanCounts markerLib ''/p''
       (Dir ''p'' [File ''early.go'' True (plainFile (1 # replicate 70 0))]) = ([], None)"
    by (simp add: scanCounts_def Walk_def visit_dir visit_file readFile_plainFile markerLib_fields)
  have r: "rankLanguages [(''Go'', 1)] = [''Go'']" "rankLanguages [] = []"
    by (simp_all add: rankLanguages_def sortSlice_def)
  from g show ?thesis
    by (simp add: recognizeDirLanguages_def late early r)
qed

end
